theory Spec2Isabelle
  imports Main
begin

section \<open>Strings as the source uses them\<close>

text \<open>
  The string methods of the host language that \<open>core.ts\<close> calls, on \<open>string\<close>: a
  list of characters, each a code unit below 256 (texts in ASCII or Latin-1).
\<close>

definition startsWith :: "string \<Rightarrow> string \<Rightarrow> bool" where
  "startsWith s p = (take (length p) s = p)"

definition endsWith :: "string \<Rightarrow> string \<Rightarrow> bool" where
  "endsWith s p = (length p \<le> length s \<and> drop (length s - length p) s = p)"

text \<open>\<open>if (p.startsWith("/")) p = p.slice(1)\<close>, as the source does with folder paths.\<close>

definition stripLeadingSlash :: "string \<Rightarrow> string" where
  "stripLeadingSlash p = (if startsWith p ''/'' then drop 1 p else p)"

text \<open>\<open>s.indexOf(tok)\<close>: the first position at which \<open>tok\<close> occurs, scanning from \<open>i\<close>.\<close>

fun indexOfFrom :: "nat \<Rightarrow> string \<Rightarrow> string \<Rightarrow> nat option" where
  "indexOfFrom i [] tok = (if tok = [] then Some i else None)"
| "indexOfFrom i (c # cs) tok =
     (if startsWith (c # cs) tok then Some i else indexOfFrom (Suc i) cs tok)"

definition stringIncludes :: "string \<Rightarrow> string \<Rightarrow> bool" where
  "stringIncludes s tok = (indexOfFrom 0 s tok \<noteq> None)"

text \<open>
  The replacement text of \<open>String.prototype.replace\<close> with a string pattern: \<open>$$\<close> is a
  dollar sign, \<open>$&\<close> the matched text, \<open>$`\<close> the text before the match and \<open>$'\<close> the
  text after it; every other character stands for itself.
\<close>

fun expandReplacement :: "string \<Rightarrow> string \<Rightarrow> string \<Rightarrow> string \<Rightarrow> string" where
  "expandReplacement [] matched pre post = []"
| "expandReplacement [c] matched pre post = [c]"
| "expandReplacement (c # d # r) matched pre post =
     (if c = CHR ''$'' \<and> d = CHR ''$'' then CHR ''$'' # expandReplacement r matched pre post
      else if c = CHR ''$'' \<and> d = CHR ''&'' then matched @ expandReplacement r matched pre post
      else if c = CHR ''$'' \<and> d = CHR 0x60 then pre @ expandReplacement r matched pre post
      else if c = CHR ''$'' \<and> d = CHR 0x27 then post @ expandReplacement r matched pre post
      else c # expandReplacement (d # r) matched pre post)"

text \<open>\<open>s.replace(tok, rep)\<close> with a string pattern: the first occurrence only.\<close>

definition replace :: "string \<Rightarrow> string \<Rightarrow> string \<Rightarrow> string" where
  "replace s tok rep =
     (case indexOfFrom 0 s tok of
        None \<Rightarrow> s
      | Some i \<Rightarrow>
          take i s @ expandReplacement rep tok (take i s) (drop (i + length tok) s)
            @ drop (i + length tok) s)"

text \<open>
  \<open>s.trim()\<close> removes white space and line terminators from both ends. Of the code
  units below 256 these are the tab, the line feed, the vertical tab, the form feed, the
  carriage return, the space and the no-break space.
\<close>

definition isSpace :: "char \<Rightarrow> bool" where
  "isSpace c = (c = CHR '' '' \<or> c = CHR 0x09 \<or> c = CHR 0x0A \<or> c = CHR 0x0B
                \<or> c = CHR 0x0C \<or> c = CHR 0x0D \<or> c = CHR 0xA0)"

definition trim :: "string \<Rightarrow> string" where
  "trim s = rev (dropWhile isSpace (rev (dropWhile isSpace s)))"

text \<open>\<open>s.split("/")\<close>: always at least one part.\<close>

fun splitOn :: "char \<Rightarrow> string \<Rightarrow> string list" where
  "splitOn sep [] = [[]]"
| "splitOn sep (c # cs) =
     (if c = sep then [] # splitOn sep cs
      else (case splitOn sep cs of
              [] \<Rightarrow> [[c]]
            | p # ps \<Rightarrow> (c # p) # ps))"

text \<open>
  \<open>name.split("-")[0].trim()\<close>: the part of a name before its first hyphen, trimmed. This
  is the period label that the duplicate checks compare.
\<close>

definition labelOf :: "string \<Rightarrow> string" where
  "labelOf name = trim (takeWhile (\<lambda>c. c \<noteq> CHR ''-'') name)"

section \<open>Calendar values\<close>

text \<open>
  A \<open>Moment\<close> as wall-clock fields in the configured time zone; \<open>month\<close> counts from 0 as
  in the library. A value of type \<open>moment option\<close> is a moment that may be invalid
  (\<open>None\<close>), which the library prints as \<open>Invalid date\<close>.
\<close>

record moment =
  year :: nat
  month :: nat
  date :: nat
  hour :: nat
  minute :: nat

definition leapYear :: "nat \<Rightarrow> bool" where
  "leapYear y = (y mod 4 = 0 \<and> (y mod 100 \<noteq> 0 \<or> y mod 400 = 0))"

definition daysInMonth :: "nat \<Rightarrow> nat \<Rightarrow> nat" where
  "daysInMonth y m =
     (if m = 1 then (if leapYear y then 29 else 28)
      else if m = 3 \<or> m = 5 \<or> m = 8 \<or> m = 10 then 30 else 31)"

text \<open>\<open>d.month(m)\<close>: sets the month, clamping the day to the length of the new month.\<close>

definition setMonth :: "nat \<Rightarrow> moment \<Rightarrow> moment" where
  "setMonth m d = d\<lparr>month := m, date := min (date d) (daysInMonth (year d) m)\<rparr>"

text \<open>\<open>d.add(1, "minute")\<close>, carrying into the hour, the day, the month and the year.\<close>

definition addMinute :: "moment \<Rightarrow> moment" where
  "addMinute d =
     (if minute d < 59 then d\<lparr>minute := minute d + 1\<rparr>
      else if hour d < 23 then d\<lparr>hour := hour d + 1, minute := 0\<rparr>
      else if date d < daysInMonth (year d) (month d)
        then d\<lparr>date := date d + 1, hour := 0, minute := 0\<rparr>
      else if month d < 11 then d\<lparr>month := month d + 1, date := 1, hour := 0, minute := 0\<rparr>
      else d\<lparr>year := year d + 1, month := 0, date := 1, hour := 0, minute := 0\<rparr>)"

section \<open>Settings, the vault and the collaborators\<close>

datatype BackFillOptions = NONE | MONTH | YEAR

record AutoJournalSettings =
  yearFormat :: string
  monthFormat :: string
  dayFormat :: string
  monthlyNotesFolderName :: string
  rootFolder :: string
  dailyNotesEnabled :: bool
  monthlyNotesEnabled :: bool
  dailyNotesBackfill :: BackFillOptions
  monthlyNotesBackfill :: BackFillOptions
  dailyNotesTemplateFile :: string
  monthlyNotesTemplateFile :: string
  monthlyNotesDayOfMonth :: int
  useTodayForLatestNote :: bool
  shouldTemplateDate :: bool
  templateDateToken :: string
  templateDateFormat :: string
  showDebugNotifications :: bool

text \<open>
  What lies outside \<open>core.ts\<close> and is taken as given: the clock, the calendar library,
  the helpers of \<open>utils/path\<close> and \<open>utils/replace-new-file-vars\<close>, and the errors with
  which the vault rejects a read, a folder creation or a file creation (\<open>None\<close>: it does
  not reject; otherwise the message of the error thrown).

  A \<open>moment\<close> holds the fields of an instant as a zone shows them. \<open>now\<close> is the current
  instant in the zone \<open>settings.timezone || moment.tz.guess()\<close>, the configured zone; one
  run reads one instant. \<open>parseDate\<close> is \<open>moment(text, "YYYY-MM-DD")\<close>: the instant that
  the text denotes, as the zone of the system shows it (\<open>None\<close>: the library finds no
  valid date in the text). \<open>tz\<close> is \<open>.tz(timezone)\<close>: the same instant as the configured
  zone shows it. \<open>format\<close> is \<open>.format(pattern)\<close>.
\<close>

record env =
  now :: moment
  format :: "string \<Rightarrow> moment \<Rightarrow> string"
  parseDate :: "string \<Rightarrow> moment option"
  tz :: "moment \<Rightarrow> moment"
  join :: "string \<Rightarrow> string \<Rightarrow> string"
  dirname :: "string \<Rightarrow> string"
  pathBasename :: "string \<Rightarrow> string"
  fileNameNoExtension :: "string \<Rightarrow> string"
  replaceNewFileVars :: "string \<Rightarrow> string \<Rightarrow> string"
  readError :: "string \<Rightarrow> string option"
  createFolderError :: "string \<Rightarrow> string option"
  createError :: "string \<Rightarrow> string option"

text \<open>A \<open>TFile\<close> of the vault: its path, its name without extension, its folder's name.\<close>

record TFile =
  path :: string
  basename :: string
  parentName :: "string option"

datatype noteType = Daily | Monthly

datatype notification =
  TemplateNotFound noteType string
| TemplateIsDirectory noteType string
| ErrorNotification string bool

record vault =
  files :: "TFile list"
  folders :: "string list"
  contents :: "string \<Rightarrow> string option"
  notifications :: "notification list"

datatype abstractFile = AFile TFile | AFolder string

definition getAbstractFileByPath :: "vault \<Rightarrow> string \<Rightarrow> abstractFile option" where
  "getAbstractFileByPath st p =
     (case find (\<lambda>f. path f = p) (files st) of
        Some f \<Rightarrow> Some (AFile f)
      | None \<Rightarrow> if p \<in> set (folders st) then Some (AFolder p) else None)"

definition notify :: "notification \<Rightarrow> vault \<Rightarrow> vault" where
  "notify n st = st\<lparr>notifications := notifications st @ [n]\<rparr>"

text \<open>
  \<open>errorNotification(message, showDebugNotifications)\<close>: the message and the flag reach the
  notification channel.
\<close>

definition errorNotification :: "string \<Rightarrow> bool \<Rightarrow> vault \<Rightarrow> vault" where
  "errorNotification msg dbg st = notify (ErrorNotification msg dbg) st"

text \<open>The name of a stored file without its extension, and the name of its folder.\<close>

definition lastSegment :: "string \<Rightarrow> string" where
  "lastSegment p = rev (takeWhile (\<lambda>c. c \<noteq> CHR ''/'') (rev p))"

definition stripExtension :: "string \<Rightarrow> string" where
  "stripExtension n =
     (if CHR ''.'' \<in> set n then rev (drop 1 (dropWhile (\<lambda>c. c \<noteq> CHR ''.'') (rev n))) else n)"

definition parentPath :: "string \<Rightarrow> string" where
  "parentPath p = rev (drop 1 (dropWhile (\<lambda>c. c \<noteq> CHR ''/'') (rev p)))"

definition newTFile :: "string \<Rightarrow> TFile" where
  "newTFile p =
     \<lparr>path = p, basename = stripExtension (lastSegment p),
      parentName = Some (lastSegment (parentPath p))\<rparr>"

text \<open>
  \<open>vault.createFolder\<close> and \<open>vault.create\<close>: the vault rejects what it is set to reject,
  a folder at a path that is taken and a file at the path of a file it holds; otherwise
  the folder or the file is added.
\<close>

definition createFolder :: "env \<Rightarrow> string \<Rightarrow> vault \<Rightarrow> string + vault" where
  "createFolder e p st =
     (case createFolderError e p of
        Some msg \<Rightarrow> Inl msg
      | None \<Rightarrow>
          if getAbstractFileByPath st p \<noteq> None then Inl ''Folder already exists.''
          else Inr (st\<lparr>folders := folders st @ [p]\<rparr>))"

definition vaultCreate :: "env \<Rightarrow> string \<Rightarrow> string \<Rightarrow> vault \<Rightarrow> string + vault" where
  "vaultCreate e p txt st =
     (case createError e p of
        Some msg \<Rightarrow> Inl msg
      | None \<Rightarrow>
          if p \<in> set (map path (files st)) then Inl ''File already exists.''
          else Inr (st\<lparr>files := files st @ [newTFile p], contents := (contents st)(p \<mapsto> txt)\<rparr>))"

definition vaultRead :: "env \<Rightarrow> TFile \<Rightarrow> vault \<Rightarrow> string + string" where
  "vaultRead e f st =
     (case readError e (path f) of
        Some msg \<Rightarrow> Inl msg
      | None \<Rightarrow> (case contents st (path f) of Some txt \<Rightarrow> Inr txt | None \<Rightarrow> Inr []))"

section \<open>The core\<close>

text \<open>The two patterns that \<open>run\<close> derives from the settings.\<close>

definition dailyFileFormat :: "AutoJournalSettings \<Rightarrow> string" where
  "dailyFileFormat s = yearFormat s @ ''/'' @ monthFormat s @ ''/'' @ dayFormat s @ '' - dddd''"

definition monthlyFileFormat :: "AutoJournalSettings \<Rightarrow> string" where
  "monthlyFileFormat s =
     yearFormat s @ ''/['' @ monthlyNotesFolderName s @ '']/'' @ monthFormat s @ '' -''"

text \<open>\<open>d.format(p)\<close> on a moment that may be invalid.\<close>

definition formatM :: "env \<Rightarrow> string \<Rightarrow> moment option \<Rightarrow> string" where
  "formatM e p d = (case d of None \<Rightarrow> ''Invalid date'' | Some m \<Rightarrow> format e p m)"

text \<open>\<open>n.toString()\<close> of a whole number and \<open>t.padStart(2, "0")\<close>.\<close>

fun showNat :: "nat \<Rightarrow> string" where
  "showNat n =
     (if n < 10 then [''0123456789'' ! n] else showNat (n div 10) @ [''0123456789'' ! (n mod 10)])"

definition showInt :: "int \<Rightarrow> string" where
  "showInt i = (if i < 0 then CHR ''-'' # showNat (nat (- i)) else showNat (nat i))"

definition padStart2 :: "string \<Rightarrow> string" where
  "padStart2 t = replicate (2 - length t) CHR ''0'' @ t"

text \<open>
  \<open>newDate(year, month, day)\<close>: the current instant in the configured zone when an
  argument is missing, empty or zero; otherwise the text \<open>year-MM-DD\<close> read by the library
  in the zone of the system and shown in the configured zone. The year is the text that
  the year pattern printed; \<open>month\<close> counts from 1 here.
\<close>

definition newDate :: "env \<Rightarrow> string \<Rightarrow> nat \<Rightarrow> int \<Rightarrow> moment option" where
  "newDate e yearText m d =
     (if yearText = [] \<or> m = 0 \<or> d = 0 then Some (now e)
      else map_option (tz e)
             (parseDate e
                (yearText @ ''-'' @ padStart2 (showNat m) @ ''-'' @ padStart2 (showInt d))))"

definition templatePathOf :: "AutoJournalSettings \<Rightarrow> noteType \<Rightarrow> string" where
  "templatePathOf s t =
     (case t of Daily \<Rightarrow> dailyNotesTemplateFile s | Monthly \<Rightarrow> monthlyNotesTemplateFile s)"

text \<open>
  \<open>getNoteTemplateContents\<close>: \<open>Inl\<close> is an error thrown by the read; \<open>Inr None\<close> is the
  \<open>null\<close> of the source, returned after a notice; \<open>Inr (Some txt)\<close> the template text.
\<close>

definition getNoteTemplateContents ::
  "env \<Rightarrow> AutoJournalSettings \<Rightarrow> noteType \<Rightarrow> vault \<Rightarrow> (string + string option) \<times> vault" where
  "getNoteTemplateContents e s t st =
     (let templatePath = templatePathOf s t in
      if templatePath \<noteq> [] then
        (case getAbstractFileByPath st (templatePath @ ''.md'') of
           None \<Rightarrow> (Inr None, notify (TemplateNotFound t templatePath) st)
         | Some (AFile templateFile) \<Rightarrow>
             (case vaultRead e templateFile st of
                Inl msg \<Rightarrow> (Inl msg, st)
              | Inr txt \<Rightarrow> (Inr (Some txt), st))
         | Some (AFolder d) \<Rightarrow> (Inr None, notify (TemplateIsDirectory t templatePath) st))
      else (Inr (Some []), st))"

text \<open>The path under which \<open>createNewFile\<close> stores a note: extension and root folder added.\<close>

definition targetPath :: "env \<Rightarrow> AutoJournalSettings \<Rightarrow> string \<Rightarrow> string" where
  "targetPath e s newFilePath =
     (let p1 = (if \<not> endsWith newFilePath ''.md'' then newFilePath @ ''.md'' else newFilePath)
      in if \<not> startsWith p1 (rootFolder s) then join e (rootFolder s) p1 else p1)"

text \<open>
  The cascade of \<open>createNewFile\<close>: one round per segment of the folder path, \<open>prevPath\<close>
  accumulating. A rejected folder creation is reported and the loop goes on.
\<close>

fun cascade ::
  "env \<Rightarrow> AutoJournalSettings \<Rightarrow> string \<Rightarrow> string \<Rightarrow> string list \<Rightarrow> vault \<Rightarrow> vault" where
  "cascade e s newFilePath prevPath [] st = st"
| "cascade e s newFilePath prevPath (folderName # rest) st =
     (let cascadePath = join e prevPath folderName;
          st' =
            (if getAbstractFileByPath st cascadePath = None then
               (case createFolder e cascadePath st of
                  Inl msg \<Rightarrow>
                    errorNotification
                      (''Error creating folder, '' @ cascadePath @ '' for '' @ newFilePath)
                      (showDebugNotifications s) st
                | Inr st2 \<Rightarrow> st2)
             else st)
      in cascade e s newFilePath cascadePath rest st')"

text \<open>The first file of the listing whose label is the label of the new file.\<close>

definition existingFile :: "env \<Rightarrow> string \<Rightarrow> TFile list \<Rightarrow> TFile option" where
  "existingFile e newFilePath filesInFolder =
     find (\<lambda>file. labelOf (basename file) = labelOf (pathBasename e newFilePath)) filesInFolder"

text \<open>The text of a new note: the date token first, then the other variables.\<close>

definition renderTemplate ::
  "env \<Rightarrow> AutoJournalSettings \<Rightarrow> moment option \<Rightarrow> string \<Rightarrow> string \<Rightarrow> string" where
  "renderTemplate e s createdDate newFilePath templateContents =
     (let dated =
            (if shouldTemplateDate s \<and> stringIncludes templateContents (templateDateToken s)
             then replace templateContents (templateDateToken s)
                    (formatM e (templateDateFormat s) createdDate)
             else templateContents)
      in replaceNewFileVars e dated (fileNameNoExtension e newFilePath))"

text \<open>
  \<open>createNewFile\<close>: \<open>Inl\<close> is the message of an error thrown (by \<open>vault.create\<close>), \<open>Inr\<close>
  the path returned; the vault is as the call leaves it in either case.
\<close>

definition createNewFile ::
  "env \<Rightarrow> AutoJournalSettings \<Rightarrow> moment option \<Rightarrow> string \<Rightarrow> string \<Rightarrow> TFile list \<Rightarrow> vault
     \<Rightarrow> (string + string) \<times> vault" where
  "createNewFile e s createdDate newFilePath0 templateContents filesInFolder st =
     (let newFilePath = targetPath e s newFilePath0;
          folderPath = stripLeadingSlash (dirname e newFilePath);
          st1 =
            (if getAbstractFileByPath st folderPath = None
             then cascade e s newFilePath [] (splitOn CHR ''/'' folderPath) st
             else st);
          txt = renderTemplate e s createdDate newFilePath templateContents
      in case existingFile e newFilePath filesInFolder of
           Some f \<Rightarrow> (Inr newFilePath, st1)
         | None \<Rightarrow>
             (case vaultCreate e newFilePath txt st1 of
                Inl msg \<Rightarrow> (Inl msg, st1)
              | Inr st2 \<Rightarrow> (Inr newFilePath, st2)))"

text \<open>
  \<open>promise.catch((error) => errorNotification(error.message, ...))\<close>: an error becomes a
  notification and the vault stays as the failed call left it.
\<close>

definition catchNotify :: "AutoJournalSettings \<Rightarrow> (string + 'a) \<times> vault \<Rightarrow> vault" where
  "catchNotify s r =
     (case fst r of
        Inl msg \<Rightarrow> errorNotification msg (showDebugNotifications s) (snd r)
      | Inr v \<Rightarrow> snd r)"

text \<open>The files of the vault whose path starts with a folder under the root folder.\<close>

definition listingFolder :: "env \<Rightarrow> AutoJournalSettings \<Rightarrow> string \<Rightarrow> string" where
  "listingFolder e s folder = stripLeadingSlash (join e (rootFolder s) folder)"

definition hasFileFor :: "TFile list \<Rightarrow> string \<Rightarrow> bool" where
  "hasFileFor filesInFolder label = list_ex (\<lambda>file. labelOf (basename file) = label) filesInFolder"

text \<open>Comparisons with the day of a moment that may be invalid (\<open>NaN\<close> compares false).\<close>

definition dateAfter :: "moment option \<Rightarrow> nat \<Rightarrow> bool" where
  "dateAfter d n = (case d of None \<Rightarrow> False | Some m \<Rightarrow> date m > n)"

definition dateBefore :: "moment option \<Rightarrow> nat \<Rightarrow> bool" where
  "dateBefore d n = (case d of None \<Rightarrow> False | Some m \<Rightarrow> date m < n)"

text \<open>One round of the day loop of \<open>createDailyNote\<close>.\<close>

definition dailyDay ::
  "env \<Rightarrow> AutoJournalSettings \<Rightarrow> string \<Rightarrow> string \<Rightarrow> nat \<Rightarrow> string \<Rightarrow> TFile list \<Rightarrow> nat
     \<Rightarrow> vault \<Rightarrow> vault" where
  "dailyDay e s templateContents yearText monthNumber currentMonth filesInFolder day st =
     (let dayDate = newDate e yearText (monthNumber + 1) (int day) in
      if currentMonth = format e (monthFormat s) (now e) \<and> dateAfter dayDate (date (now e))
        then st
      else if hasFileFor filesInFolder (formatM e (dayFormat s) dayDate) then st
      else if dailyNotesBackfill s = NONE \<and> dateBefore dayDate (date (now e)) then st
      else
        (let createFileDate =
               (if useTodayForLatestNote s
                   \<and> format e ''YYYY-MM-DD'' (now e) = formatM e ''YYYY-MM-DD'' dayDate
                then Some (addMinute (now e)) else dayDate);
             newFilePath = formatM e (dailyFileFormat s) dayDate
         in catchNotify s
              (createNewFile e s createFileDate newFilePath templateContents filesInFolder st)))"

text \<open>The listing that one month of \<open>createDailyNote\<close> works on.\<close>

definition dailyFilesInFolder :: "env \<Rightarrow> AutoJournalSettings \<Rightarrow> moment \<Rightarrow> vault \<Rightarrow> TFile list" where
  "dailyFilesInFolder e s dateOfMonth st =
     (let dayOfMonthFilePath = format e (dailyFileFormat s) dateOfMonth @ ''.md'';
          monthsFolderPath = dirname e dayOfMonthFilePath
      in filter (\<lambda>file. startsWith (path file) (listingFolder e s monthsFolderPath)) (files st))"

text \<open>
  One round of the month loop of \<open>createDailyNote\<close>. With an invalid first day the number
  of days is \<open>NaN\<close> and the day loop does not run.
\<close>

definition dailyMonth ::
  "env \<Rightarrow> AutoJournalSettings \<Rightarrow> string \<Rightarrow> nat \<Rightarrow> vault \<Rightarrow> vault" where
  "dailyMonth e s templateContents monthNumber st =
     (let yearText = format e (yearFormat s) (now e) in
      case newDate e yearText (monthNumber + 1) 1 of
        None \<Rightarrow> st
      | Some d0 \<Rightarrow>
          (let dateOfMonth = setMonth monthNumber d0;
               currentMonth = format e (monthFormat s) dateOfMonth
           in if month (now e) < monthNumber then st
              else if (dailyNotesBackfill s = MONTH \<or> dailyNotesBackfill s = NONE)
                      \<and> currentMonth \<noteq> format e (monthFormat s) (now e) then st
              else
                (let filesInFolder = dailyFilesInFolder e s dateOfMonth st
                 in fold (dailyDay e s templateContents yearText monthNumber currentMonth
                            filesInFolder)
                      [1 ..< Suc (daysInMonth (year dateOfMonth) (month dateOfMonth))] st)))"

definition createDailyNote ::
  "env \<Rightarrow> AutoJournalSettings \<Rightarrow> vault \<Rightarrow> (string + unit) \<times> vault" where
  "createDailyNote e s st =
     (case getNoteTemplateContents e s Daily st of
        (Inl msg, st1) \<Rightarrow> (Inl msg, st1)
      | (Inr None, st1) \<Rightarrow> (Inr (), st1)
      | (Inr (Some templateContents), st1) \<Rightarrow>
          (Inr (), fold (dailyMonth e s templateContents) [0 ..< 12] st1))"

text \<open>The listing that \<open>createMonthlyNote\<close> works on.\<close>

definition monthlyFilesInFolder :: "env \<Rightarrow> AutoJournalSettings \<Rightarrow> vault \<Rightarrow> TFile list" where
  "monthlyFilesInFolder e s st =
     (let dayOfMonthFilePath = format e (monthlyFileFormat s) (now e) @ ''.md'';
          monthlyNotesFolderPath = dirname e dayOfMonthFilePath
      in filter
           (\<lambda>file. startsWith (path file) (listingFolder e s monthlyNotesFolderPath)
              \<and> (case parentName file of
                    None \<Rightarrow> True
                  | Some n \<Rightarrow> if n \<noteq> [] then n = monthlyNotesFolderName s else True))
           (files st))"

definition sameMonthAndYear :: "moment \<Rightarrow> moment option \<Rightarrow> bool" where
  "sameMonthAndYear n d =
     (case d of None \<Rightarrow> False | Some m \<Rightarrow> month n = month m \<and> year n = year m)"

text \<open>One round of the month loop of \<open>createMonthlyNote\<close>.\<close>

definition monthlyMonth ::
  "env \<Rightarrow> AutoJournalSettings \<Rightarrow> string \<Rightarrow> string \<Rightarrow> TFile list \<Rightarrow> nat \<Rightarrow> vault \<Rightarrow> vault" where
  "monthlyMonth e s templateContents yearText filesInFolder monthNumber st =
     (let monthDate = newDate e yearText (monthNumber + 1) (monthlyNotesDayOfMonth s) in
      if month (now e) < monthNumber then st
      else if monthlyNotesBackfill s \<noteq> YEAR
              \<and> formatM e (monthFormat s) monthDate \<noteq> format e (monthFormat s) (now e) then st
      else if hasFileFor filesInFolder (formatM e (monthFormat s) monthDate) then st
      else if int (date (now e)) < monthlyNotesDayOfMonth s \<and> monthNumber = month (now e)
        then st
      else
        (let createFileDate =
               (if useTodayForLatestNote s \<and> sameMonthAndYear (now e) monthDate
                then Some (addMinute (now e)) else monthDate);
             newFilePath = formatM e (monthlyFileFormat s) monthDate
         in catchNotify s
              (createNewFile e s createFileDate newFilePath templateContents filesInFolder st)))"

definition createMonthlyNote ::
  "env \<Rightarrow> AutoJournalSettings \<Rightarrow> vault \<Rightarrow> (string + unit) \<times> vault" where
  "createMonthlyNote e s st =
     (case getNoteTemplateContents e s Monthly st of
        (Inl msg, st1) \<Rightarrow> (Inl msg, st1)
      | (Inr None, st1) \<Rightarrow> (Inr (), st1)
      | (Inr (Some templateContents), st1) \<Rightarrow>
          (let yearText = format e (yearFormat s) (now e);
               filesInFolder = monthlyFilesInFolder e s st1
           in (Inr (), fold (monthlyMonth e s templateContents yearText filesInFolder)
                         [0 ..< 12] st1)))"

text \<open>
  \<open>run\<close>: each enabled branch, with its \<open>catch\<close>. The result is \<open>Inl\<close> when an error
  leaves \<open>run\<close> and \<open>Inr\<close> when \<open>run\<close> returns.
\<close>

definition run :: "env \<Rightarrow> AutoJournalSettings \<Rightarrow> vault \<Rightarrow> (string + unit) \<times> vault" where
  "run e s st =
     (let st1 = (if dailyNotesEnabled s then catchNotify s (createDailyNote e s st) else st);
          st2 = (if monthlyNotesEnabled s then catchNotify s (createMonthlyNote e s st1) else st1)
      in (Inr (), st2))"

section \<open>The files that a run leaves\<close>

text \<open>
  Whether a run adds a file depends on the files of the vault only, not on its folders,
  texts or notifications. The functions of this section compute the list of files after
  each loop from the list before it; they are proved to agree with the loops above.
\<close>

text \<open>\<open>createNewFile\<close> adds a file: no file of the listing has the label of the new
  file, the vault does not reject the path, and no file is stored at it.\<close>

definition createsFile ::
  "env \<Rightarrow> AutoJournalSettings \<Rightarrow> string \<Rightarrow> TFile list \<Rightarrow> TFile list \<Rightarrow> bool" where
  "createsFile e s newFilePath filesInFolder fl =
     (existingFile e (targetPath e s newFilePath) filesInFolder = None
      \<and> createError e (targetPath e s newFilePath) = None
      \<and> targetPath e s newFilePath \<notin> set (map path fl))"

definition createNewFileFiles ::
  "env \<Rightarrow> AutoJournalSettings \<Rightarrow> string \<Rightarrow> TFile list \<Rightarrow> TFile list \<Rightarrow> TFile list" where
  "createNewFileFiles e s newFilePath filesInFolder fl =
     (if createsFile e s newFilePath filesInFolder fl
      then fl @ [newTFile (targetPath e s newFilePath)] else fl)"

text \<open>A round of the day loop ends at one of its three \<open>continue\<close> statements.\<close>

definition dailyDaySkips ::
  "env \<Rightarrow> AutoJournalSettings \<Rightarrow> string \<Rightarrow> nat \<Rightarrow> string \<Rightarrow> TFile list \<Rightarrow> nat \<Rightarrow> bool" where
  "dailyDaySkips e s yearText monthNumber currentMonth filesInFolder day =
     ((currentMonth = format e (monthFormat s) (now e)
         \<and> dateAfter (newDate e yearText (monthNumber + 1) (int day)) (date (now e)))
      \<or> hasFileFor filesInFolder
           (formatM e (dayFormat s) (newDate e yearText (monthNumber + 1) (int day)))
      \<or> (dailyNotesBackfill s = NONE
           \<and> dateBefore (newDate e yearText (monthNumber + 1) (int day)) (date (now e))))"

definition dailyDayFiles ::
  "env \<Rightarrow> AutoJournalSettings \<Rightarrow> string \<Rightarrow> nat \<Rightarrow> string \<Rightarrow> TFile list \<Rightarrow> nat
     \<Rightarrow> TFile list \<Rightarrow> TFile list" where
  "dailyDayFiles e s yearText monthNumber currentMonth filesInFolder day fl =
     (if dailyDaySkips e s yearText monthNumber currentMonth filesInFolder day then fl
      else createNewFileFiles e s
             (formatM e (dailyFileFormat s) (newDate e yearText (monthNumber + 1) (int day)))
             filesInFolder fl)"

text \<open>A round of the month loop of \<open>createDailyNote\<close> ends before its day loop.\<close>

definition dailyMonthSkips :: "env \<Rightarrow> AutoJournalSettings \<Rightarrow> nat \<Rightarrow> moment \<Rightarrow> bool" where
  "dailyMonthSkips e s monthNumber d0 =
     (month (now e) < monthNumber
      \<or> ((dailyNotesBackfill s = MONTH \<or> dailyNotesBackfill s = NONE)
           \<and> format e (monthFormat s) (setMonth monthNumber d0)
               \<noteq> format e (monthFormat s) (now e)))"

definition dailyListing :: "env \<Rightarrow> AutoJournalSettings \<Rightarrow> moment \<Rightarrow> TFile list \<Rightarrow> TFile list" where
  "dailyListing e s dateOfMonth fl =
     filter
       (\<lambda>file. startsWith (path file)
          (listingFolder e s (dirname e (format e (dailyFileFormat s) dateOfMonth @ ''.md''))))
       fl"

definition dailyMonthFiles ::
  "env \<Rightarrow> AutoJournalSettings \<Rightarrow> nat \<Rightarrow> TFile list \<Rightarrow> TFile list" where
  "dailyMonthFiles e s monthNumber fl =
     (case newDate e (format e (yearFormat s) (now e)) (monthNumber + 1) 1 of
        None \<Rightarrow> fl
      | Some d0 \<Rightarrow>
          if dailyMonthSkips e s monthNumber d0 then fl
          else fold
                 (dailyDayFiles e s (format e (yearFormat s) (now e)) monthNumber
                    (format e (monthFormat s) (setMonth monthNumber d0))
                    (dailyListing e s (setMonth monthNumber d0) fl))
                 [1 ..< Suc (daysInMonth (year (setMonth monthNumber d0))
                               (month (setMonth monthNumber d0)))]
                 fl)"

text \<open>A round of the month loop of \<open>createMonthlyNote\<close> ends at one of its four
  \<open>continue\<close> statements.\<close>

definition monthlyMonthSkips ::
  "env \<Rightarrow> AutoJournalSettings \<Rightarrow> string \<Rightarrow> TFile list \<Rightarrow> nat \<Rightarrow> bool" where
  "monthlyMonthSkips e s yearText filesInFolder monthNumber =
     (month (now e) < monthNumber
      \<or> (monthlyNotesBackfill s \<noteq> YEAR
           \<and> formatM e (monthFormat s)
                 (newDate e yearText (monthNumber + 1) (monthlyNotesDayOfMonth s))
               \<noteq> format e (monthFormat s) (now e))
      \<or> hasFileFor filesInFolder
           (formatM e (monthFormat s)
              (newDate e yearText (monthNumber + 1) (monthlyNotesDayOfMonth s)))
      \<or> (int (date (now e)) < monthlyNotesDayOfMonth s \<and> monthNumber = month (now e)))"

definition monthlyMonthFiles ::
  "env \<Rightarrow> AutoJournalSettings \<Rightarrow> string \<Rightarrow> TFile list \<Rightarrow> nat \<Rightarrow> TFile list \<Rightarrow> TFile list" where
  "monthlyMonthFiles e s yearText filesInFolder monthNumber fl =
     (if monthlyMonthSkips e s yearText filesInFolder monthNumber then fl
      else createNewFileFiles e s
             (formatM e (monthlyFileFormat s)
                (newDate e yearText (monthNumber + 1) (monthlyNotesDayOfMonth s)))
             filesInFolder fl)"

definition monthlyListing :: "env \<Rightarrow> AutoJournalSettings \<Rightarrow> TFile list \<Rightarrow> TFile list" where
  "monthlyListing e s fl =
     filter
       (\<lambda>file. startsWith (path file)
            (listingFolder e s (dirname e (format e (monthlyFileFormat s) (now e) @ ''.md'')))
          \<and> (case parentName file of
                None \<Rightarrow> True
              | Some n \<Rightarrow> if n \<noteq> [] then n = monthlyNotesFolderName s else True))
       fl"

definition monthlyFiles :: "env \<Rightarrow> AutoJournalSettings \<Rightarrow> TFile list \<Rightarrow> TFile list" where
  "monthlyFiles e s fl =
     fold (monthlyMonthFiles e s (format e (yearFormat s) (now e)) (monthlyListing e s fl))
       [0 ..< 12] fl"

definition dailyFiles :: "env \<Rightarrow> AutoJournalSettings \<Rightarrow> TFile list \<Rightarrow> TFile list" where
  "dailyFiles e s fl = fold (dailyMonthFiles e s) [0 ..< 12] fl"

text \<open>\<open>getNoteTemplateContents\<close> gives a template text: the path is empty, or a file is
  stored at it and the vault lets it be read.\<close>

definition templateGiven :: "env \<Rightarrow> AutoJournalSettings \<Rightarrow> noteType \<Rightarrow> TFile list \<Rightarrow> bool" where
  "templateGiven e s t fl =
     (templatePathOf s t = []
      \<or> (list_ex (\<lambda>f. path f = templatePathOf s t @ ''.md'') fl
          \<and> readError e (templatePathOf s t @ ''.md'') = None))"

text \<open>The artifact of a day and of a month: the path at which its note is stored.\<close>

definition dailyArtifact :: "env \<Rightarrow> AutoJournalSettings \<Rightarrow> moment \<Rightarrow> string" where
  "dailyArtifact e s d = targetPath e s (format e (dailyFileFormat s) d)"


text \<open>Midnight of a day.\<close>

definition dayOf :: "nat \<Rightarrow> nat \<Rightarrow> nat \<Rightarrow> moment" where
  "dayOf y m d = \<lparr>year = y, month = m, date = d, hour = 0, minute = 0\<rparr>"

section \<open>The folders of the cascade\<close>


section \<open>A concrete calendar, path helpers and vault for the scenarios\<close>

text \<open>
  Modelled from the spec: the calendar library is not part of the sources. This is its
  formatting of a pattern that is not empty, for the tokens \<open>YYYY\<close>, \<open>YY\<close>, \<open>MMMM\<close>,
  \<open>MMM\<close>, \<open>MM\<close>, \<open>M\<close>, \<open>DD\<close>, \<open>D\<close>, \<open>dddd\<close>, \<open>ddd\<close>, \<open>HH\<close>, \<open>mm\<close> and for text
  escaped in square brackets; every other character is copied. The scenarios use it with
  the patterns \<open>YYYY\<close>, \<open>MM\<close>, \<open>DD\<close>, \<open>dddd\<close> and with escaped text.
\<close>

definition digitChar :: "nat \<Rightarrow> char" where
  "digitChar n = ''0123456789'' ! (n mod 10)"

definition pad2 :: "nat \<Rightarrow> string" where
  "pad2 n = [digitChar (n div 10), digitChar n]"

definition pad4 :: "nat \<Rightarrow> string" where
  "pad4 n = [digitChar (n div 1000), digitChar (n div 100), digitChar (n div 10), digitChar n]"

definition unpadded :: "nat \<Rightarrow> string" where
  "unpadded n = (if n < 10 then [digitChar n] else pad2 n)"

definition monthNames :: "string list" where
  "monthNames = [''January'', ''February'', ''March'', ''April'', ''May'', ''June'', ''July'',
     ''August'', ''September'', ''October'', ''November'', ''December'']"

definition weekdayNames :: "string list" where
  "weekdayNames = [''Sunday'', ''Monday'', ''Tuesday'', ''Wednesday'', ''Thursday'', ''Friday'',
     ''Saturday'']"

text \<open>The day of the week of a Gregorian date, 0 for Sunday; \<open>month\<close> counts from 0.\<close>

definition weekday :: "moment \<Rightarrow> nat" where
  "weekday d =
     (let m = month d + 1;
          a = (14 - m) div 12;
          y = year d - a;
          k = m + 12 * a - 2
      in (date d + y + y div 4 - y div 100 + y div 400 + (31 * k) div 12) mod 7)"

text \<open>
  The token at the head of a pattern: the text it prints and how many characters of the
  pattern it takes (at least one).
\<close>

definition tokenAt :: "string \<Rightarrow> moment \<Rightarrow> string \<times> nat" where
  "tokenAt p d =
     (if startsWith p ''['' \<and> CHR '']'' \<in> set (drop 1 p)
         \<and> CHR ''['' \<notin> set (takeWhile (\<lambda>x. x \<noteq> CHR '']'') (drop 1 p))
        then (takeWhile (\<lambda>x. x \<noteq> CHR '']'') (drop 1 p),
              length (takeWhile (\<lambda>x. x \<noteq> CHR '']'') (drop 1 p)) + 2)
      else if startsWith p ''YYYY'' then (pad4 (year d), 4)
      else if startsWith p ''YY'' then (pad2 (year d), 2)
      else if startsWith p ''MMMM'' then (monthNames ! (month d mod 12), 4)
      else if startsWith p ''MMM'' then (take 3 (monthNames ! (month d mod 12)), 3)
      else if startsWith p ''MM'' then (pad2 (month d + 1), 2)
      else if startsWith p ''M'' then (unpadded (month d + 1), 1)
      else if startsWith p ''DD'' then (pad2 (date d), 2)
      else if startsWith p ''D'' then (unpadded (date d), 1)
      else if startsWith p ''dddd'' then (weekdayNames ! weekday d, 4)
      else if startsWith p ''ddd'' then (take 3 (weekdayNames ! weekday d), 3)
      else if startsWith p ''HH'' then (pad2 (hour d), 2)
      else if startsWith p ''mm'' then (pad2 (minute d), 2)
      else (take 1 p, 1))"

fun momentFormat :: "string \<Rightarrow> moment \<Rightarrow> string" where
  "momentFormat [] d = []"
| "momentFormat (c # cs) d =
     fst (tokenAt (c # cs) d) @ momentFormat (drop (snd (tokenAt (c # cs) d) - 1) cs) d"

text \<open>
  Modelled from the spec: how the calendar library reads a text with the pattern
  \<open>YYYY-MM-DD\<close> when it is not strict. Each field is the first run of digits in what is
  left of the text, at most four digits for the year and two for the month and the day; a
  year of two digits is one of 1969 to 2068; between two fields the text up to the first
  hyphen is passed over, and what is left after the day is ignored. A field that is not
  found is the first month or the first day. The date is valid when the month is one of
  the twelve and has the day; it stands for midnight.
\<close>

definition digitValue :: "char \<Rightarrow> nat option" where
  "digitValue c = map_of (zip ''0123456789'' [0, 1, 2, 3, 4, 5, 6, 7, 8, 9]) c"

definition isDigit :: "char \<Rightarrow> bool" where
  "isDigit c = (digitValue c \<noteq> None)"

definition digitsValue :: "string \<Rightarrow> nat" where
  "digitsValue t = fold (\<lambda>c acc. 10 * acc + (case digitValue c of None \<Rightarrow> 0 | Some v \<Rightarrow> v)) t 0"

definition fieldAt :: "nat \<Rightarrow> string \<Rightarrow> string" where
  "fieldAt k t = take k (takeWhile isDigit (dropWhile (\<lambda>c. \<not> isDigit c) t))"

definition afterField :: "nat \<Rightarrow> string \<Rightarrow> string" where
  "afterField k t = drop (length (fieldAt k t)) (dropWhile (\<lambda>c. \<not> isDigit c) t)"

definition afterHyphen :: "string \<Rightarrow> string" where
  "afterHyphen t =
     (if CHR ''-'' \<in> set t then drop 1 (dropWhile (\<lambda>c. c \<noteq> CHR ''-'') t) else t)"

definition yearOfField :: "string \<Rightarrow> nat" where
  "yearOfField t =
     (if length t = 2 then (if digitsValue t > 68 then 1900 + digitsValue t else 2000 + digitsValue t)
      else digitsValue t)"

definition momentParse :: "string \<Rightarrow> moment option" where
  "momentParse t =
     (let yearField = fieldAt 4 t;
          t1 = afterHyphen (afterField 4 t);
          monthField = fieldAt 2 t1;
          t2 = afterHyphen (afterField 2 t1);
          dayField = fieldAt 2 t2;
          m = (if monthField = [] then 1 else digitsValue monthField);
          d = (if dayField = [] then 1 else digitsValue dayField)
      in if yearField \<noteq> [] \<and> 1 \<le> m \<and> m \<le> 12 \<and> 1 \<le> d
            \<and> d \<le> daysInMonth (yearOfField yearField) (m - 1)
         then Some \<lparr>year = yearOfField yearField, month = m - 1, date = d, hour = 0, minute = 0\<rparr>
         else None)"

text \<open>
  Modelled from the spec: how the time zone library shows an instant in another zone, for
  two zones without daylight saving time. \<open>shiftZone z\<close> adds \<open>z\<close> minutes, the offset of
  the configured zone less the offset of the zone of the system, and carries into the day,
  the month and the year.
\<close>

definition nextDay :: "moment \<Rightarrow> moment" where
  "nextDay d =
     (if date d < daysInMonth (year d) (month d) then d\<lparr>date := date d + 1\<rparr>
      else if month d < 11 then d\<lparr>month := month d + 1, date := 1\<rparr>
      else d\<lparr>year := year d + 1, month := 0, date := 1\<rparr>)"

definition prevDay :: "moment \<Rightarrow> moment" where
  "prevDay d =
     (if 1 < date d then d\<lparr>date := date d - 1\<rparr>
      else if 0 < month d
        then d\<lparr>month := month d - 1, date := daysInMonth (year d) (month d - 1)\<rparr>
      else d\<lparr>year := year d - 1, month := 11, date := 31\<rparr>)"

definition shiftZone :: "int \<Rightarrow> moment \<Rightarrow> moment" where
  "shiftZone z d =
     (let total = int (hour d * 60 + minute d) + z;
          days = total div 1440;
          rest = nat (total mod 1440);
          d1 = (if 0 \<le> days then (nextDay ^^ nat days) d else (prevDay ^^ nat (- days)) d)
      in d1\<lparr>hour := rest div 60, minute := rest mod 60\<rparr>)"

text \<open>
  Modelled from the spec: \<open>utils/path\<close> is not part of the sources. \<open>join\<close> puts two
  paths together with one slash between them, \<open>dirname\<close> is a path without its last
  segment, \<open>basename\<close> the last segment and \<open>fileNameNoExtension\<close> the last segment
  without its extension.
\<close>

definition pathJoin :: "string \<Rightarrow> string \<Rightarrow> string" where
  "pathJoin a b =
     (if a = [] then b else if b = [] then a
      else (if endsWith a ''/'' then butlast a else a) @ ''/'' @ stripLeadingSlash b)"

definition pathDirname :: "string \<Rightarrow> string" where
  "pathDirname p = parentPath p"

definition pathFileNameNoExtension :: "string \<Rightarrow> string" where
  "pathFileNameNoExtension p = stripExtension (lastSegment p)"

text \<open>
  The collaborators of the scenarios: the configured zone \<open>z\<close> minutes ahead of the zone
  of the system, the clock at \<open>n\<close> in the configured zone, a vault that rejects nothing but
  what exists already, and a variable engine that leaves the text as it is (a template
  with no variables).
\<close>

definition scenarioEnv :: "int \<Rightarrow> moment \<Rightarrow> env" where
  "scenarioEnv z n =
     \<lparr>now = n, format = momentFormat, parseDate = momentParse, tz = shiftZone z,
      join = pathJoin,
      dirname = pathDirname, pathBasename = lastSegment,
      fileNameNoExtension = pathFileNameNoExtension,
      replaceNewFileVars = (\<lambda>txt name. txt),
      readError = (\<lambda>p. None), createFolderError = (\<lambda>p. None), createError = (\<lambda>p. None)\<rparr>"

text \<open>2024-03-15, 09:30, a Friday; and 2024-03-29, 09:30.\<close>

definition march15 :: moment where
  "march15 = \<lparr>year = 2024, month = 2, date = 15, hour = 9, minute = 30\<rparr>"

text \<open>
  Settings with the patterns \<open>YYYY\<close>, \<open>MM\<close>, \<open>DD\<close>, no template files and the given
  backfill policies.
\<close>

definition march29 :: moment where
  "march29 = \<lparr>year = 2024, month = 2, date = 29, hour = 9, minute = 30\<rparr>"

definition scenarioSettings :: "BackFillOptions \<Rightarrow> BackFillOptions \<Rightarrow> AutoJournalSettings" where
  "scenarioSettings daily monthly =
     \<lparr>yearFormat = ''YYYY'', monthFormat = ''MM'', dayFormat = ''DD'',
      monthlyNotesFolderName = ''Monthly'', rootFolder = ''Journal'',
      dailyNotesEnabled = True, monthlyNotesEnabled = True,
      dailyNotesBackfill = daily, monthlyNotesBackfill = monthly,
      dailyNotesTemplateFile = [], monthlyNotesTemplateFile = [],
      monthlyNotesDayOfMonth = 1, useTodayForLatestNote = False,
      shouldTemplateDate = True, templateDateToken = ''{{auto-journal-date}}'',
      templateDateFormat = ''YYYY-MM-DD'', showDebugNotifications = False\<rparr>"

definition emptyVault :: vault where
  "emptyVault = \<lparr>files = [], folders = [], contents = (\<lambda>p. None), notifications = []\<rparr>"

subsection \<open>Small facts about the definitions\<close>

declare showNat.simps [simp del]

lemma path_newTFile [simp]: "path (newTFile p) = p"
  by (simp add: newTFile_def)

lemma dayOf_sel:
  "year (dayOf y m d) = y" "month (dayOf y m d) = m" "date (dayOf y m d) = d"
  "hour (dayOf y m d) = 0" "minute (dayOf y m d) = 0"
  by (simp_all add: dayOf_def)

lemma setMonth_first:
  "setMonth m (dayOf y m 1) = dayOf y m 1" "setMonth m (dayOf y m (Suc 0)) = dayOf y m (Suc 0)"
  by (simp_all add: setMonth_def dayOf_def daysInMonth_def)

lemma existingFile_Nil [simp]: "existingFile e p [] = None"
  by (simp add: existingFile_def)

lemma hasFileFor_Nil [simp]: "hasFileFor [] l = False"
  by (simp add: hasFileFor_def)

lemma daysInMonth_le: "daysInMonth y m \<le> 31"
  by (simp add: daysInMonth_def)

subsection \<open>The files of the vault through the loops\<close>

lemma files_notify [simp]: "files (notify n st) = files st"
  by (simp add: notify_def)

lemma files_errorNotification [simp]: "files (errorNotification m d st) = files st"
  by (simp add: errorNotification_def)

lemma files_catchNotify [simp]: "files (catchNotify s r) = files (snd r)"
  by (simp add: catchNotify_def split: sum.splits)

lemma files_cascade [simp]: "files (cascade e s nfp prev segs st) = files st"
  by (induction segs arbitrary: prev st)
     (auto simp: Let_def createFolder_def split: sum.splits option.splits if_splits)

lemma contents_cascade [simp]: "contents (cascade e s nfp prev segs st) = contents st"
  by (induction segs arbitrary: prev st)
     (auto simp: Let_def createFolder_def errorNotification_def notify_def
           split: sum.splits option.splits if_splits)

lemma files_createNewFile:
  "files (snd (createNewFile e s cd p tmpl fs st)) = createNewFileFiles e s p fs (files st)"
  by (auto simp: createNewFile_def createNewFileFiles_def createsFile_def Let_def vaultCreate_def
           split: option.splits sum.splits if_splits)

lemma files_dailyDay:
  "files (dailyDay e s tmpl yt m cm fs day st) = dailyDayFiles e s yt m cm fs day (files st)"
  by (auto simp: dailyDay_def dailyDayFiles_def dailyDaySkips_def Let_def files_createNewFile)

lemma files_fold_dailyDay:
  "files (fold (dailyDay e s tmpl yt m cm fs) ds st)
     = fold (dailyDayFiles e s yt m cm fs) ds (files st)"
  by (induction ds arbitrary: st) (simp_all add: files_dailyDay)

lemma files_dailyMonth:
  "files (dailyMonth e s tmpl m st) = dailyMonthFiles e s m (files st)"
  by (auto simp: dailyMonth_def dailyMonthFiles_def dailyMonthSkips_def dailyFilesInFolder_def
        dailyListing_def Let_def files_fold_dailyDay simp del: upt_Suc split: option.splits)

lemma files_fold_dailyMonth:
  "files (fold (dailyMonth e s tmpl) ms st) = fold (dailyMonthFiles e s) ms (files st)"
  by (induction ms arbitrary: st) (simp_all add: files_dailyMonth)

lemma files_monthlyMonth:
  "files (monthlyMonth e s tmpl yt fs m st) = monthlyMonthFiles e s yt fs m (files st)"
  by (auto simp: monthlyMonth_def monthlyMonthFiles_def monthlyMonthSkips_def Let_def
        files_createNewFile)

lemma files_fold_monthlyMonth:
  "files (fold (monthlyMonth e s tmpl yt fs) ms st)
     = fold (monthlyMonthFiles e s yt fs) ms (files st)"
  by (induction ms arbitrary: st) (simp_all add: files_monthlyMonth)

lemma find_path_None: "(find (\<lambda>f. path f = p) fl = None) = (\<not> list_ex (\<lambda>f. path f = p) fl)"
  by (auto simp: find_None_iff list_ex_iff)

lemma find_path_Some: "find (\<lambda>f. path f = p) fl = Some f \<Longrightarrow> path f = p \<and> list_ex (\<lambda>f. path f = p) fl"
  by (auto simp: find_Some_iff list_ex_iff)

lemma template_files [simp]: "files (snd (getNoteTemplateContents e s t st)) = files st"
  by (simp add: getNoteTemplateContents_def Let_def split: option.splits abstractFile.splits sum.splits)

lemma template_given:
  "(\<exists>txt. fst (getNoteTemplateContents e s t st) = Inr (Some txt)) = templateGiven e s t (files st)"
  by (auto simp: getNoteTemplateContents_def templateGiven_def Let_def getAbstractFileByPath_def
        vaultRead_def find_path_None
        dest: find_path_Some
        split: option.splits abstractFile.splits sum.splits)

lemma files_createDailyNote:
  "files (snd (createDailyNote e s st))
     = (if templateGiven e s Daily (files st) then dailyFiles e s (files st) else files st)"
proof (cases "getNoteTemplateContents e s Daily st")
  case (Pair r st1)
  have f: "files st1 = files st"
    using template_files [of e s Daily st] Pair by simp
  have g: "(\<exists>txt. r = Inr (Some txt)) = templateGiven e s Daily (files st)"
    using template_given [of e s Daily st] Pair by simp
  show ?thesis
    using Pair f g
    by (cases r; cases "projr r")
       (auto simp: createDailyNote_def dailyFiles_def files_fold_dailyMonth)
qed

lemma files_createMonthlyNote:
  "files (snd (createMonthlyNote e s st))
     = (if templateGiven e s Monthly (files st) then monthlyFiles e s (files st) else files st)"
proof (cases "getNoteTemplateContents e s Monthly st")
  case (Pair r st1)
  have f: "files st1 = files st"
    using template_files [of e s Monthly st] Pair by simp
  have g: "(\<exists>txt. r = Inr (Some txt)) = templateGiven e s Monthly (files st)"
    using template_given [of e s Monthly st] Pair by simp
  show ?thesis
    using Pair f g
    by (cases r; cases "projr r")
       (auto simp: createMonthlyNote_def monthlyFiles_def monthlyFilesInFolder_def
          monthlyListing_def Let_def files_fold_monthlyMonth)
qed

lemma files_run:
  "files (snd (run e s st)) =
     (let fl1 = (if dailyNotesEnabled s \<and> templateGiven e s Daily (files st)
                 then dailyFiles e s (files st) else files st)
      in if monthlyNotesEnabled s \<and> templateGiven e s Monthly fl1
         then monthlyFiles e s fl1 else fl1)"
  by (simp add: run_def Let_def files_createDailyNote files_createMonthlyNote)

subsection \<open>The scenario's collaborators, evaluated\<close>

lemma scenarioEnv_sel:
  "now (scenarioEnv z n) = n" "format (scenarioEnv z n) = momentFormat"
  "parseDate (scenarioEnv z n) = momentParse" "tz (scenarioEnv z n) = shiftZone z"
  "join (scenarioEnv z n) = pathJoin"
  "dirname (scenarioEnv z n) = pathDirname" "pathBasename (scenarioEnv z n) = lastSegment"
  "fileNameNoExtension (scenarioEnv z n) = pathFileNameNoExtension"
  "replaceNewFileVars (scenarioEnv z n) = (\<lambda>txt name. txt)"
  "readError (scenarioEnv z n) = (\<lambda>p. None)" "createFolderError (scenarioEnv z n) = (\<lambda>p. None)"
  "createError (scenarioEnv z n) = (\<lambda>p. None)"
  by (simp_all add: scenarioEnv_def)

lemma scenarioSettings_sel:
  "yearFormat (scenarioSettings a b) = ''YYYY''" "monthFormat (scenarioSettings a b) = ''MM''"
  "dayFormat (scenarioSettings a b) = ''DD''"
  "monthlyNotesFolderName (scenarioSettings a b) = ''Monthly''"
  "rootFolder (scenarioSettings a b) = ''Journal''"
  "dailyNotesEnabled (scenarioSettings a b) = True" "monthlyNotesEnabled (scenarioSettings a b) = True"
  "dailyNotesBackfill (scenarioSettings a b) = a" "monthlyNotesBackfill (scenarioSettings a b) = b"
  "dailyNotesTemplateFile (scenarioSettings a b) = []"
  "monthlyNotesTemplateFile (scenarioSettings a b) = []"
  "monthlyNotesDayOfMonth (scenarioSettings a b) = 1"
  "useTodayForLatestNote (scenarioSettings a b) = False"
  "shouldTemplateDate (scenarioSettings a b) = True"
  "templateDateToken (scenarioSettings a b) = ''{{auto-journal-date}}''"
  "templateDateFormat (scenarioSettings a b) = ''YYYY-MM-DD''"
  "showDebugNotifications (scenarioSettings a b) = False"
  by (simp_all add: scenarioSettings_def)

lemma march15_sel:
  "year march15 = 2024" "month march15 = 2" "date march15 = 15" "hour march15 = 9"
  "minute march15 = 30"
  by (simp_all add: march15_def)

lemma march29_sel:
  "year march29 = 2024" "month march29 = 2" "date march29 = 29" "hour march29 = 9"
  "minute march29 = 30"
  by (simp_all add: march29_def)

lemma scenario_formats:
  "momentFormat ''YYYY'' d = pad4 (year d)"
  "momentFormat ''MM'' d = pad2 (month d + 1)"
  "momentFormat ''DD'' d = pad2 (date d)"
  "momentFormat ''YYYY-MM-DD'' d = pad4 (year d) @ ''-'' @ pad2 (month d + 1) @ ''-'' @ pad2 (date d)"
  "momentFormat (dailyFileFormat (scenarioSettings a b)) d
     = pad4 (year d) @ ''/'' @ pad2 (month d + 1) @ ''/'' @ pad2 (date d) @ '' - ''
         @ weekdayNames ! weekday d"
  "momentFormat (monthlyFileFormat (scenarioSettings a b)) d
     = pad4 (year d) @ ''/Monthly/'' @ pad2 (month d + 1) @ '' -''"
  by (simp_all add: momentFormat.simps tokenAt_def startsWith_def dailyFileFormat_def
        monthlyFileFormat_def scenarioSettings_sel)

declare momentFormat.simps [simp del]

lemma pad4_2024: "pad4 2024 = ''2024''"
  by (simp add: pad4_def digitChar_def)

lemma digitChar_eq: "(digitChar a = digitChar b) = (a mod 10 = b mod 10)"
proof -
  have d: "distinct ''0123456789''" by simp
  have "a mod 10 < length ''0123456789''" "b mod 10 < length ''0123456789''" by simp_all
  then show ?thesis
    unfolding digitChar_def using d nth_eq_iff_index_eq by blast
qed

lemma pad2_eq: "a < 100 \<Longrightarrow> b < 100 \<Longrightarrow> (pad2 a = pad2 b) = (a = b)"
proof
  assume lt: "a < 100" "b < 100" and eq: "pad2 a = pad2 b"
  from eq have h: "a div 10 mod 10 = b div 10 mod 10" and l: "a mod 10 = b mod 10"
    by (simp_all add: pad2_def digitChar_eq)
  from lt have "a div 10 < 10" "b div 10 < 10" by simp_all
  with h have "a div 10 = b div 10" by simp
  with l show "a = b"
    by (metis div_mult_mod_eq)
qed simp

lemma digitValue_digitChar: "digitValue (digitChar k) = Some (k mod 10)"
proof -
  have "\<forall>j < 10. digitValue (''0123456789'' ! j) = Some j"
    by (simp add: digitValue_def All_less_Suc numeral_nat)
  then show ?thesis
    by (simp add: digitChar_def)
qed

lemma isDigit_digitChar [simp]: "isDigit (digitChar k)"
  by (simp add: isDigit_def digitValue_digitChar)

lemma digitChar_not_hyphen [simp]: "digitChar k \<noteq> CHR ''-''" "CHR ''-'' \<noteq> digitChar k"
proof -
  have n: "digitValue CHR ''-'' = None" by (simp add: digitValue_def)
  show "digitChar k \<noteq> CHR ''-''"
  proof
    assume "digitChar k = CHR ''-''"
    with digitValue_digitChar [of k] n show False by simp
  qed
  then show "CHR ''-'' \<noteq> digitChar k" by (rule not_sym)
qed

lemma pad2_value: "a < 100 \<Longrightarrow> digitsValue (pad2 a) = a"
proof -
  assume "a < 100"
  then have "a div 10 mod 10 = a div 10" by simp
  then show ?thesis
    by (simp add: digitsValue_def pad2_def digitValue_digitChar)
qed

lemma momentParse_pad:
  assumes "a < 100" "b < 100"
  shows "momentParse (''2024-'' @ pad2 a @ ''-'' @ pad2 b)
     = (if 1 \<le> a \<and> a \<le> 12 \<and> 1 \<le> b \<and> b \<le> daysInMonth 2024 (a - 1)
        then Some (dayOf 2024 (a - 1) b) else None)"
proof -
  have digits: "isDigit CHR ''2''" "isDigit CHR ''0''" "isDigit CHR ''4''" "\<not> isDigit CHR ''-''"
    by (simp_all add: isDigit_def digitValue_def)
  have y: "fieldAt 4 (''2024-'' @ pad2 a @ ''-'' @ pad2 b) = ''2024''"
    by (simp add: fieldAt_def digits)
  have r1: "afterHyphen (afterField 4 (''2024-'' @ pad2 a @ ''-'' @ pad2 b)) = pad2 a @ ''-'' @ pad2 b"
    by (simp add: afterField_def afterHyphen_def fieldAt_def digits)
  have m: "fieldAt 2 (pad2 a @ ''-'' @ pad2 b) = pad2 a"
    by (simp add: fieldAt_def digits pad2_def)
  have r2: "afterHyphen (afterField 2 (pad2 a @ ''-'' @ pad2 b)) = pad2 b"
    by (simp add: afterField_def afterHyphen_def fieldAt_def digits pad2_def)
  have d: "fieldAt 2 (pad2 b) = pad2 b"
    by (simp add: fieldAt_def pad2_def)
  have ne: "pad2 a \<noteq> []" "pad2 b \<noteq> []" by (simp_all add: pad2_def)
  have yv: "yearOfField ''2024'' = 2024"
    by (simp add: yearOfField_def digitsValue_def digitValue_def)
  show ?thesis
    unfolding momentParse_def Let_def y r1 m r2 d
    using assms by (simp add: ne yv pad2_value dayOf_def)
qed

lemma showNat_pad2: "n < 100 \<Longrightarrow> padStart2 (showNat n) = pad2 n"
proof (cases "n < 10")
  case True
  then show ?thesis
    by (simp add: showNat.simps [of n] padStart2_def pad2_def digitChar_def)
next
  case False
  assume "n < 100"
  with False have "n div 10 < 10" by simp
  then have "showNat (n div 10) = [''0123456789'' ! (n div 10)]"
    by (simp add: showNat.simps [of "n div 10"])
  with False \<open>n div 10 < 10\<close> show ?thesis
    by (simp add: showNat.simps [of n] padStart2_def pad2_def digitChar_def)
qed

lemma showInt_int [simp]: "showInt (int n) = showNat n"
  by (simp add: showInt_def)

lemma shiftZone_0_dayOf [simp]: "shiftZone 0 (dayOf y m d) = dayOf y m d"
  by (simp add: shiftZone_def dayOf_def)

lemma length_pad [simp]: "length (pad2 n) = 2" "length (pad4 n) = 4"
  by (simp_all add: pad2_def pad4_def)

lemma weekday_less: "weekday x < 7"
  by (simp add: weekday_def Let_def)

lemma weekday_name: "weekdayNames ! weekday x \<in> set weekdayNames"
proof -
  have "length weekdayNames = 7" by (simp add: weekdayNames_def)
  then show ?thesis using weekday_less [of x] by (intro nth_mem) simp
qed

lemma endsWith_append:
  "length suf \<le> length n \<Longrightarrow> endsWith (p @ n) suf = endsWith n suf"
  by (simp add: endsWith_def)

lemma weekday_name_not_md: "\<not> endsWith (p @ weekdayNames ! weekday x) ''.md''"
proof -
  have "\<forall>n \<in> set weekdayNames. 3 \<le> length n \<and> \<not> endsWith n ''.md''"
    by (simp add: weekdayNames_def endsWith_def)
  with weekday_name [of x]
  have "3 \<le> length (weekdayNames ! weekday x)" "\<not> endsWith (weekdayNames ! weekday x) ''.md''"
    by blast+
  then show ?thesis
    by (simp add: endsWith_append)
qed

lemma endsWith_Cons: "length suf \<le> length q \<Longrightarrow> endsWith (c # q) suf = endsWith q suf"
  by (simp add: endsWith_def Suc_diff_le)

lemma endsWith_short: "length q \<le> length suf \<Longrightarrow> endsWith q suf = (q = suf)"
  by (auto simp: endsWith_def)

lemma weekday_name_props:
  "6 \<le> length (weekdayNames ! weekday x)" "\<not> endsWith (weekdayNames ! weekday x) ''.md''"
proof -
  have "\<forall>n \<in> set weekdayNames. 6 \<le> length n \<and> \<not> endsWith n ''.md''"
    by (simp add: weekdayNames_def endsWith_def)
  with weekday_name [of x]
  show "6 \<le> length (weekdayNames ! weekday x)" "\<not> endsWith (weekdayNames ! weekday x) ''.md''"
    by blast+
qed

lemma scenario_dailyArtifact_moment:
  assumes "year x = 2024"
  shows "dailyArtifact (scenarioEnv z n) (scenarioSettings a b) x
     = ''Journal/2024/'' @ pad2 (month x + 1) @ ''/'' @ pad2 (date x) @ '' - ''
         @ weekdayNames ! weekday x @ ''.md''"
proof -
  have len: "3 \<le> length (weekdayNames ! weekday x)"
    using weekday_name_props(1) [of x] by simp
  show ?thesis
    using len assms
    by (simp add: dailyArtifact_def targetPath_def scenarioEnv_sel scenarioSettings_sel
          scenario_formats pad4_2024 endsWith_Cons endsWith_append endsWith_short
          weekday_name_props(2) startsWith_def pathJoin_def stripLeadingSlash_def)
qed

lemma scenario_dailyArtifact:
  "dailyArtifact (scenarioEnv z n) (scenarioSettings a b) (dayOf 2024 m d)
     = ''Journal/2024/'' @ pad2 (m + 1) @ ''/'' @ pad2 d @ '' - ''
         @ weekdayNames ! weekday (dayOf 2024 m d) @ ''.md''"
  using scenario_dailyArtifact_moment [of "dayOf 2024 m d" z n a b] by (simp add: dayOf_sel)


lemma scenario_dailyArtifact_inj:
  "d < 100 \<Longrightarrow> d' < 100 \<Longrightarrow>
   (dailyArtifact (scenarioEnv z n) (scenarioSettings a b) (dayOf 2024 m d)
      = dailyArtifact (scenarioEnv z n) (scenarioSettings a b) (dayOf 2024 m' d')) \<Longrightarrow> d = d'"
  using pad2_eq [of d d']
  by (simp add: scenario_dailyArtifact)

lemma scenario_newDate_shifted:
  assumes "m < 12" "d < 100"
  shows "newDate (scenarioEnv z n) ''2024'' (Suc m) (int d)
     = (if d = 0 then Some n
        else if d \<le> daysInMonth 2024 m then Some (shiftZone z (dayOf 2024 m d)) else None)"
proof -
  have "Suc m < 100" using assms(1) by simp
  then have a: "padStart2 (showNat (Suc m)) = pad2 (Suc m)" by (rule showNat_pad2)
  have b: "padStart2 (showNat d) = pad2 d" using assms(2) by (rule showNat_pad2)
  have "momentParse (''2024-'' @ pad2 (Suc m) @ ''-'' @ pad2 d)
          = (if 1 \<le> d \<and> d \<le> daysInMonth 2024 m then Some (dayOf 2024 m d) else None)"
    using momentParse_pad [of "Suc m" d] assms by simp
  then show ?thesis
    by (simp add: newDate_def scenarioEnv_sel a b)
qed

lemma scenario_newDate:
  assumes "m < 12" "d < 100"
  shows "newDate (scenarioEnv 0 n) ''2024'' (Suc m) (int d)
     = (if d = 0 then Some n
        else if d \<le> daysInMonth 2024 m then Some (dayOf 2024 m d) else None)"
  using scenario_newDate_shifted [OF assms, of 0 n] by simp

lemma scenario_newDate_first:
  assumes "m < 12"
  shows "newDate (scenarioEnv z n) ''2024'' (Suc m) 1 = Some (shiftZone z (dayOf 2024 m 1))"
  using scenario_newDate_shifted [OF assms, of 1 z n] by (simp add: daysInMonth_def)

lemma scenario_yearText:
  "format (scenarioEnv z march15) (yearFormat (scenarioSettings a b)) (now (scenarioEnv z march15))
     = ''2024''"
  "format (scenarioEnv z march29) (yearFormat (scenarioSettings a b)) (now (scenarioEnv z march29))
     = ''2024''"
  by (simp_all add: scenarioEnv_sel scenarioSettings_sel scenario_formats march15_sel
        march29_sel pad4_2024)

lemma pad2_3: "pad2 3 = ''03''"
  by (simp add: pad2_def digitChar_def)

lemma scenario_dailyDayFiles:
  assumes "m < 12" "1 \<le> d" "d \<le> daysInMonth 2024 m"
  shows "dailyDayFiles (scenarioEnv 0 march15) (scenarioSettings pol q) ''2024'' m cm [] d fl
     = (if (cm = ''03'' \<and> 15 < d) \<or> (pol = NONE \<and> d < 15)
           \<or> dailyArtifact (scenarioEnv 0 march15) (scenarioSettings pol q) (dayOf 2024 m d)
                \<in> set (map path fl)
        then fl
        else fl @ [newTFile (dailyArtifact (scenarioEnv 0 march15) (scenarioSettings pol q)
                               (dayOf 2024 m d))])"
  using assms scenario_newDate [of m d march15] daysInMonth_le [of 2024 m]
  by (auto simp: dailyDayFiles_def dailyDaySkips_def createNewFileFiles_def createsFile_def
        scenario_formats(2) march15_sel pad2_3 dateAfter_def dateBefore_def
        dayOf_sel formatM_def dailyArtifact_def scenarioEnv_sel scenarioSettings_sel)

lemma scenario_fold_days:
  assumes "m < 12"
      and "\<forall>d \<in> set ds. 1 \<le> d \<and> d \<le> daysInMonth 2024 m"
      and "distinct ds"
      and "\<forall>d \<in> set ds. dailyArtifact (scenarioEnv 0 march15) (scenarioSettings pol q)
                            (dayOf 2024 m d) \<notin> set (map path fl)"
  shows "fold (dailyDayFiles (scenarioEnv 0 march15) (scenarioSettings pol q) ''2024'' m cm []) ds fl
     = fl @ map (\<lambda>d. newTFile (dailyArtifact (scenarioEnv 0 march15) (scenarioSettings pol q)
                                  (dayOf 2024 m d)))
              (filter (\<lambda>d. \<not> ((cm = ''03'' \<and> 15 < d) \<or> (pol = NONE \<and> d < 15))) ds)"
  using assms(2-4)
proof (induction ds arbitrary: fl)
  case Nil
  then show ?case by simp
next
  case (Cons d ds)
  let ?A = "\<lambda>d. dailyArtifact (scenarioEnv 0 march15) (scenarioSettings pol q) (dayOf 2024 m d)"
  let ?fl = "dailyDayFiles (scenarioEnv 0 march15) (scenarioSettings pol q) ''2024'' m cm [] d fl"
  have d: "1 \<le> d" "d \<le> daysInMonth 2024 m" "?A d \<notin> set (map path fl)"
    using Cons.prems by simp_all
  have step: "?fl = (if (cm = ''03'' \<and> 15 < d) \<or> (pol = NONE \<and> d < 15) then fl
                     else fl @ [newTFile (?A d)])"
    using scenario_dailyDayFiles [OF assms(1) d(1) d(2), of pol q cm fl] d(3) by simp
  have fresh: "\<forall>d' \<in> set ds. ?A d' \<notin> set (map path ?fl)"
  proof
    fix d' assume m: "d' \<in> set ds"
    then have ne: "d' \<noteq> d" using Cons.prems(2) by auto
    have "d' \<le> daysInMonth 2024 m" using m Cons.prems(1) by simp
    then have lt: "d' < 100" "d < 100"
      using d(2) daysInMonth_le [of 2024 m] by simp_all
    have "?A d' \<noteq> ?A d"
      using scenario_dailyArtifact_inj [OF lt] ne by blast
    moreover have "?A d' \<notin> set (map path fl)" using m Cons.prems(3) by simp
    ultimately show "?A d' \<notin> set (map path ?fl)"
      by (simp add: step)
  qed
  have "fold (dailyDayFiles (scenarioEnv 0 march15) (scenarioSettings pol q) ''2024'' m cm []) ds ?fl
          = ?fl @ map (\<lambda>d. newTFile (?A d))
               (filter (\<lambda>d. \<not> ((cm = ''03'' \<and> 15 < d) \<or> (pol = NONE \<and> d < 15))) ds)"
    using Cons.IH [of ?fl] Cons.prems fresh by simp
  then show ?case
    by (simp add: step)
qed

lemma scenario_listingFolder:
  assumes "m \<le> 2"
  shows "listingFolder (scenarioEnv 0 march15) (scenarioSettings pol q)
           (dirname (scenarioEnv 0 march15)
              (format (scenarioEnv 0 march15) (dailyFileFormat (scenarioSettings pol q))
                 (dayOf 2024 m 1) @ ''.md''))
         = ''Journal/2024/'' @ pad2 (m + 1)"
proof -
  from assms consider "m = 0" | "m = 1" | "m = 2" by linarith
  then show ?thesis
    by cases
       (simp_all add: listingFolder_def scenarioEnv_sel scenarioSettings_sel scenario_formats
          dayOf_sel pathDirname_def parentPath_def pathJoin_def stripLeadingSlash_def
          startsWith_def endsWith_def pad2_def pad4_def digitChar_def weekday_def
          weekdayNames_def)
qed

lemma scenario_startsWith_month:
  assumes "m < 12" "m' < 12"
  shows "startsWith (dailyArtifact (scenarioEnv 0 march15) (scenarioSettings pol q) (dayOf 2024 m d))
           (''Journal/2024/'' @ pad2 (m' + 1)) = (m = m')"
  using assms pad2_eq [of "m + 1" "m' + 1"]
  by (simp add: scenario_dailyArtifact startsWith_def)

lemma scenario_dailyMonthFiles:
  assumes "m < 12"
      and "\<forall>f \<in> set fl. \<not> startsWith (path f) (''Journal/2024/'' @ pad2 (m + 1))"
  shows "dailyMonthFiles (scenarioEnv 0 march15) (scenarioSettings pol q) m fl
     = (if 2 < m \<or> (pol \<noteq> YEAR \<and> m \<noteq> 2) then fl
        else fl @ map (\<lambda>d. newTFile (dailyArtifact (scenarioEnv 0 march15) (scenarioSettings pol q)
                                       (dayOf 2024 m d)))
                   (filter (\<lambda>d. \<not> ((m = 2 \<and> 15 < d) \<or> (pol = NONE \<and> d < 15)))
                      [1 ..< Suc (daysInMonth 2024 m)]))"
proof -
  let ?e = "scenarioEnv 0 march15" and ?s = "scenarioSettings pol q"
  have nd: "newDate ?e (format ?e (yearFormat ?s) (now ?e)) (m + 1) 1 = Some (dayOf 2024 m 1)"
    using scenario_newDate_first [OF assms(1), of 0 march15] by (simp add: scenario_yearText)
  have lab: "(pad2 (m + 1) = ''03'') = (m = 2)"
    using pad2_eq [of "m + 1" 3] assms(1) by (simp add: pad2_3)
  have skips: "dailyMonthSkips ?e ?s m (dayOf 2024 m 1) = (2 < m \<or> (pol \<noteq> YEAR \<and> m \<noteq> 2))"
    using lab
    by (cases pol)
       (auto simp: dailyMonthSkips_def setMonth_first scenarioEnv_sel scenarioSettings_sel
          scenario_formats march15_sel dayOf_sel pad2_3)
  show ?thesis
  proof (cases "2 < m \<or> (pol \<noteq> YEAR \<and> m \<noteq> 2)")
    case True
    then show ?thesis
      using nd skips by (simp add: dailyMonthFiles_def)
  next
    case False
    then have m2: "m \<le> 2" by simp
    have listing: "dailyListing ?e ?s (dayOf 2024 m 1) fl = []"
      using assms(2) scenario_listingFolder [OF m2, of pol q]
      by (simp add: dailyListing_def filter_empty_conv)
    have fresh: "\<forall>d \<in> set [1 ..< Suc (daysInMonth 2024 m)].
                   dailyArtifact ?e ?s (dayOf 2024 m d) \<notin> set (map path fl)"
    proof (intro ballI notI)
      fix d assume "dailyArtifact ?e ?s (dayOf 2024 m d) \<in> set (map path fl)"
      then obtain f where f: "f \<in> set fl" "path f = dailyArtifact ?e ?s (dayOf 2024 m d)"
        by auto
      then show False
        using assms(2) scenario_startsWith_month [OF assms(1) assms(1), of pol q d] by auto
    qed
    have days: "\<forall>d \<in> set [1 ..< Suc (daysInMonth 2024 m)]. 1 \<le> d \<and> d \<le> daysInMonth 2024 m"
      by auto
    have "fold (dailyDayFiles ?e ?s ''2024'' m (pad2 (m + 1)) []) [1 ..< Suc (daysInMonth 2024 m)] fl
            = fl @ map (\<lambda>d. newTFile (dailyArtifact ?e ?s (dayOf 2024 m d)))
                     (filter (\<lambda>d. \<not> ((pad2 (m + 1) = ''03'' \<and> 15 < d) \<or> (pol = NONE \<and> d < 15)))
                        [1 ..< Suc (daysInMonth 2024 m)])"
      by (rule scenario_fold_days [OF assms(1) days _ fresh]) simp
    moreover have ns: "\<not> dailyMonthSkips ?e ?s m (dayOf 2024 m 1)"
      using False skips by blast
    moreover have "(if 2 < m \<or> (pol \<noteq> YEAR \<and> m \<noteq> 2) then fl
        else fl @ map (\<lambda>d. newTFile (dailyArtifact ?e ?s (dayOf 2024 m d)))
                   (filter (\<lambda>d. \<not> ((m = 2 \<and> 15 < d) \<or> (pol = NONE \<and> d < 15)))
                      [1 ..< Suc (daysInMonth 2024 m)]))
        = fl @ map (\<lambda>d. newTFile (dailyArtifact ?e ?s (dayOf 2024 m d)))
                   (filter (\<lambda>d. \<not> ((m = 2 \<and> 15 < d) \<or> (pol = NONE \<and> d < 15)))
                      [1 ..< Suc (daysInMonth 2024 m)])"
      using False by presburger
    ultimately show ?thesis
      using nd listing lab
      by (simp add: dailyMonthFiles_def setMonth_first
            scenarioEnv_sel scenarioSettings_sel scenario_formats dayOf_sel march15_sel pad4_2024
            del: upt_Suc)
  qed
qed


lemma months_upt: "[0 ..< 12] = [0, 1, 2, 3, 4, 5, 6, 7, 8, 9, 10, 11]"
  by (simp add: upt_conv_Cons)

lemma filter_days:
  "filter (\<lambda>d. \<not> 15 < d) [1 ..< 32] = [1 ..< 16]"
  "filter (\<lambda>d. \<not> (15 < d \<or> d < 15)) [1 ..< 32] = [15]"
  by (simp_all add: upt_conv_Cons del: upt_Suc)


lemma scenario_dailyFiles_NONE:
  "dailyFiles (scenarioEnv 0 march15) (scenarioSettings NONE q) []
     = [newTFile (dailyArtifact (scenarioEnv 0 march15) (scenarioSettings NONE q) (dayOf 2024 2 15))]"
proof -
  let ?e = "scenarioEnv 0 march15" and ?s = "scenarioSettings NONE q"
  let ?M = "[newTFile (dailyArtifact ?e ?s (dayOf 2024 2 15))]"
  have free: "\<forall>f \<in> set ?M. \<not> startsWith (path f) (''Journal/2024/'' @ pad2 (m + 1))"
    if "2 < m" "m < 12" for m
    using that scenario_startsWith_month [of 2 m NONE q 15] by simp
  have later: "\<And>m. 2 < m \<Longrightarrow> m < 12 \<Longrightarrow> dailyMonthFiles ?e ?s m ?M = ?M"
    using scenario_dailyMonthFiles [OF _ free] by simp
  have m0: "dailyMonthFiles ?e ?s 0 [] = []"
    using scenario_dailyMonthFiles [of 0 "[]" NONE q] by simp
  have m1: "dailyMonthFiles ?e ?s 1 [] = []"
    using scenario_dailyMonthFiles [of 1 "[]" NONE q] by simp
  have m2: "dailyMonthFiles ?e ?s 2 [] = ?M"
    using scenario_dailyMonthFiles [of 2 "[]" NONE q] filter_days(2)
    by (simp add: daysInMonth_def del: upt_Suc)
  show ?thesis
    unfolding dailyFiles_def months_upt
    using m0 m1 m2 later [of 3] later [of 4] later [of 5] later [of 6] later [of 7] later [of 8]
      later [of 9] later [of 10] later [of 11]
    by (simp del: upt_Suc)
qed

lemma march15_artifact:
  "dailyArtifact (scenarioEnv 0 march15) (scenarioSettings a b) (dayOf 2024 2 15)
     = ''Journal/2024/03/15 - Friday.md''"
  by (simp add: scenario_dailyArtifact pad2_def digitChar_def weekday_def weekdayNames_def dayOf_sel)

lemma scenario_templateGiven:
  "templateGiven (scenarioEnv z n) (scenarioSettings a b) t fl"
  by (cases t) (simp_all add: templateGiven_def templatePathOf_def scenarioSettings_sel)

lemma scenario_files_NONE:
  "files (snd (createDailyNote (scenarioEnv 0 march15) (scenarioSettings NONE q) emptyVault))
     = [newTFile ''Journal/2024/03/15 - Friday.md'']"
  by (simp add: files_createDailyNote scenario_templateGiven emptyVault_def
        scenario_dailyFiles_NONE march15_artifact)













lemma lookup_after_notification [simp]:
  "getAbstractFileByPath (errorNotification msg dbg st) p = getAbstractFileByPath st p"
  by (simp add: getAbstractFileByPath_def errorNotification_def notify_def)


lemma folders_errorNotification [simp]: "folders (errorNotification msg dbg st) = folders st"
  by (simp add: errorNotification_def notify_def)

lemma notifications_errorNotification [simp]:
  "notifications (errorNotification msg dbg st) = notifications st @ [ErrorNotification msg dbg]"
  by (simp add: errorNotification_def notify_def)







subsection \<open>A loop of rounds that add files\<close>

lemma fold_extends:
  assumes "\<And>x fl. \<exists>ys. f x fl = fl @ ys"
  shows "\<exists>ys. fold f xs fl = fl @ ys"
proof (induction xs arbitrary: fl)
  case Nil
  show ?case by simp
next
  case (Cons x xs)
  obtain ys where a: "f x fl = fl @ ys" using assms by blast
  obtain zs where b: "fold f xs (fl @ ys) = (fl @ ys) @ zs" using Cons.IH by blast
  show ?case using a b by simp
qed

lemma fold_settled:
  assumes "\<forall>x \<in> set xs. f x fl = fl"
  shows "fold f xs fl = fl"
  using assms by (induction xs) simp_all

lemma fold_rounds_settled:
  assumes ext: "\<And>x fl. \<exists>ys. f x fl = fl @ ys"
      and eq: "fold f xs fl = fl"
  shows "\<forall>x \<in> set xs. f x fl = fl"
  using eq
proof (induction xs)
  case Nil
  show ?case by simp
next
  case (Cons x xs)
  obtain ys where a: "f x fl = fl @ ys" using ext by blast
  obtain zs where b: "fold f xs (fl @ ys) = (fl @ ys) @ zs"
    using fold_extends [where f = f, OF ext] by blast
  from Cons.prems a b have "ys = []" by simp
  with a Cons.prems have "f x fl = fl" "fold f xs fl = fl" by simp_all
  with Cons.IH show ?case by simp
qed

lemma fold_settles:
  assumes ext: "\<And>x fl. \<exists>ys. f x fl = fl @ ys"
      and after: "\<And>x fl. f x (f x fl) = f x fl"
      and mono: "\<And>x fl fl'. f x fl = fl \<Longrightarrow> set fl \<subseteq> set fl' \<Longrightarrow> f x fl' = fl'"
  shows "\<forall>x \<in> set xs. f x (fold f xs fl) = fold f xs fl"
proof (induction xs arbitrary: fl)
  case Nil
  show ?case by simp
next
  case (Cons x xs)
  obtain zs where b: "fold f xs (f x fl) = f x fl @ zs"
    using fold_extends [where f = f, OF ext] by blast
  then have "set (f x fl) \<subseteq> set (fold f xs (f x fl))" by simp
  then have "f x (fold f xs (f x fl)) = fold f xs (f x fl)"
    using mono [of x "f x fl", OF after] by blast
  with Cons.IH [of "f x fl"] show ?case by simp
qed

subsection \<open>The rounds of the two loops add files and settle\<close>

lemma createNewFileFiles_extends: "\<exists>ys. createNewFileFiles e s p L fl = fl @ ys"
  by (simp add: createNewFileFiles_def)

lemma existingFile_None:
  "(existingFile e p L = None)
     = (\<forall>f \<in> set L. labelOf (basename f) \<noteq> labelOf (pathBasename e p))"
  by (auto simp: existingFile_def find_None_iff)

lemma createsFile_mono:
  assumes "\<not> createsFile e s p L fl" "set L \<subseteq> set L'" "set fl \<subseteq> set fl'"
  shows "\<not> createsFile e s p L' fl'"
  using assms unfolding createsFile_def existingFile_None by auto

lemma createsFile_after: "\<not> createsFile e s p L (createNewFileFiles e s p L fl)"
  by (simp add: createNewFileFiles_def createsFile_def)

lemma createNewFileFiles_settled:
  "(createNewFileFiles e s p L fl = fl) = (\<not> createsFile e s p L fl)"
  by (simp add: createNewFileFiles_def)

lemma hasFileFor_mono: "hasFileFor L l \<Longrightarrow> set L \<subseteq> set L' \<Longrightarrow> hasFileFor L' l"
  by (auto simp: hasFileFor_def list_ex_iff)

lemma dailyDaySkips_mono:
  "dailyDaySkips e s yt m cm L d \<Longrightarrow> set L \<subseteq> set L' \<Longrightarrow> dailyDaySkips e s yt m cm L' d"
  unfolding dailyDaySkips_def using hasFileFor_mono by blast

lemma dailyDayFiles_extends: "\<exists>ys. dailyDayFiles e s yt m cm L d fl = fl @ ys"
  using createNewFileFiles_extends by (simp add: dailyDayFiles_def)

lemma dailyDayFiles_settled:
  "(dailyDayFiles e s yt m cm L d fl = fl)
     = (dailyDaySkips e s yt m cm L d
        \<or> \<not> createsFile e s (formatM e (dailyFileFormat s) (newDate e yt (m + 1) (int d))) L fl)"
  by (simp add: dailyDayFiles_def createNewFileFiles_settled)

lemma dailyDayFiles_mono:
  assumes "dailyDayFiles e s yt m cm L d fl = fl" "set L \<subseteq> set L'" "set fl \<subseteq> set fl'"
  shows "dailyDayFiles e s yt m cm L' d fl' = fl'"
  using assms dailyDaySkips_mono [of e s yt m cm L d L'] createsFile_mono [OF _ assms(2,3)]
  unfolding dailyDayFiles_settled by blast

lemma dailyDayFiles_after:
  "dailyDayFiles e s yt m cm L d (dailyDayFiles e s yt m cm L d fl) = dailyDayFiles e s yt m cm L d fl"
  using createsFile_after [of e s _ L fl]
  by (simp add: dailyDayFiles_def createNewFileFiles_settled)

lemma dailyListing_mono: "set fl \<subseteq> set fl' \<Longrightarrow> set (dailyListing e s dm fl) \<subseteq> set (dailyListing e s dm fl')"
  by (auto simp: dailyListing_def)

lemma dailyMonthFiles_extends: "\<exists>ys. dailyMonthFiles e s m fl = fl @ ys"
proof (cases "newDate e (format e (yearFormat s) (now e)) (m + 1) 1")
  case None
  then show ?thesis by (simp add: dailyMonthFiles_def)
next
  case (Some d0)
  then have nd: "newDate e (format e (yearFormat s) (now e)) (Suc m) 1 = Some d0" by simp
  show ?thesis
    using fold_extends
      [where f = "dailyDayFiles e s (format e (yearFormat s) (now e)) m
                    (format e (monthFormat s) (setMonth m d0))
                    (dailyListing e s (setMonth m d0) fl)",
       OF dailyDayFiles_extends]
    by (simp add: dailyMonthFiles_def nd del: upt_Suc)
qed

lemma dailyMonthFiles_mono:
  assumes "dailyMonthFiles e s m fl = fl" "set fl \<subseteq> set fl'"
  shows "dailyMonthFiles e s m fl' = fl'"
proof (cases "newDate e (format e (yearFormat s) (now e)) (m + 1) 1")
  case None
  then show ?thesis by (simp add: dailyMonthFiles_def)
next
  case (Some d0)
  then have nd: "newDate e (format e (yearFormat s) (now e)) (Suc m) 1 = Some d0" by simp
  show ?thesis
  proof (cases "dailyMonthSkips e s m d0")
    case True
    then show ?thesis by (simp add: dailyMonthFiles_def nd)
  next
    case False
    let ?yt = "format e (yearFormat s) (now e)"
    let ?cm = "format e (monthFormat s) (setMonth m d0)"
    let ?days = "[1 ..< Suc (daysInMonth (year (setMonth m d0)) (month (setMonth m d0)))]"
    let ?L = "\<lambda>fl. dailyListing e s (setMonth m d0) fl"
    have "fold (dailyDayFiles e s ?yt m ?cm (?L fl)) ?days fl = fl"
      using assms(1) False by (simp add: dailyMonthFiles_def nd del: upt_Suc)
    then have "\<forall>d \<in> set ?days. dailyDayFiles e s ?yt m ?cm (?L fl) d fl = fl"
      by (rule fold_rounds_settled
                 [where f = "dailyDayFiles e s ?yt m ?cm (?L fl)", OF dailyDayFiles_extends])
    then have "\<forall>d \<in> set ?days. dailyDayFiles e s ?yt m ?cm (?L fl') d fl' = fl'"
      using dailyDayFiles_mono [OF _ dailyListing_mono [OF assms(2)] assms(2)] by blast
    then have "fold (dailyDayFiles e s ?yt m ?cm (?L fl')) ?days fl' = fl'"
      by (rule fold_settled)
    then show ?thesis
      using False by (simp add: dailyMonthFiles_def nd del: upt_Suc)
  qed
qed

lemma dailyMonthFiles_after:
  "dailyMonthFiles e s m (dailyMonthFiles e s m fl) = dailyMonthFiles e s m fl"
proof (cases "newDate e (format e (yearFormat s) (now e)) (m + 1) 1")
  case None
  then show ?thesis by (simp add: dailyMonthFiles_def)
next
  case (Some d0)
  then have nd: "newDate e (format e (yearFormat s) (now e)) (Suc m) 1 = Some d0" by simp
  show ?thesis
  proof (cases "dailyMonthSkips e s m d0")
    case True
    then show ?thesis by (simp add: dailyMonthFiles_def nd)
  next
    case False
    let ?yt = "format e (yearFormat s) (now e)"
    let ?cm = "format e (monthFormat s) (setMonth m d0)"
    let ?days = "[1 ..< Suc (daysInMonth (year (setMonth m d0)) (month (setMonth m d0)))]"
    let ?L = "\<lambda>fl. dailyListing e s (setMonth m d0) fl"
    let ?R = "fold (dailyDayFiles e s ?yt m ?cm (?L fl)) ?days fl"
    have R: "dailyMonthFiles e s m fl = ?R"
      using False by (simp add: dailyMonthFiles_def nd del: upt_Suc)
    obtain ys where "?R = fl @ ys"
      using fold_extends [where f = "dailyDayFiles e s ?yt m ?cm (?L fl)",
                          OF dailyDayFiles_extends]
      by blast
    then have sub: "set fl \<subseteq> set ?R" by simp
    have "\<forall>d \<in> set ?days. dailyDayFiles e s ?yt m ?cm (?L fl) d ?R = ?R"
      by (rule fold_settles [where f = "dailyDayFiles e s ?yt m ?cm (?L fl)",
                 OF dailyDayFiles_extends dailyDayFiles_after])
         (rule dailyDayFiles_mono [OF _ subset_refl])
    then have "\<forall>d \<in> set ?days. dailyDayFiles e s ?yt m ?cm (?L ?R) d ?R = ?R"
      using dailyDayFiles_mono [OF _ dailyListing_mono [OF sub] subset_refl] by blast
    then have "fold (dailyDayFiles e s ?yt m ?cm (?L ?R)) ?days ?R = ?R"
      by (rule fold_settled)
    then have "dailyMonthFiles e s m ?R = ?R"
      using False by (simp add: dailyMonthFiles_def nd del: upt_Suc)
    then show ?thesis
      unfolding R .
  qed
qed

lemma dailyFiles_extends: "\<exists>ys. dailyFiles e s fl = fl @ ys"
  unfolding dailyFiles_def
  by (rule fold_extends [where f = "dailyMonthFiles e s", OF dailyMonthFiles_extends])

lemma dailyFiles_settled:
  assumes "set (dailyFiles e s fl) \<subseteq> set fl'"
  shows "dailyFiles e s fl' = fl'"
proof -
  have "\<forall>m \<in> set [0 ..< 12]. dailyMonthFiles e s m (dailyFiles e s fl) = dailyFiles e s fl"
    unfolding dailyFiles_def
    by (rule fold_settles [where f = "dailyMonthFiles e s",
               OF dailyMonthFiles_extends dailyMonthFiles_after dailyMonthFiles_mono])
  then have "\<forall>m \<in> set [0 ..< 12]. dailyMonthFiles e s m fl' = fl'"
    using dailyMonthFiles_mono [OF _ assms] by blast
  then show ?thesis
    unfolding dailyFiles_def by (rule fold_settled)
qed

lemma monthlyMonthSkips_mono:
  "monthlyMonthSkips e s yt L m \<Longrightarrow> set L \<subseteq> set L' \<Longrightarrow> monthlyMonthSkips e s yt L' m"
  unfolding monthlyMonthSkips_def using hasFileFor_mono by blast

lemma monthlyMonthFiles_extends: "\<exists>ys. monthlyMonthFiles e s yt L m fl = fl @ ys"
  using createNewFileFiles_extends by (simp add: monthlyMonthFiles_def)

lemma monthlyMonthFiles_settled:
  "(monthlyMonthFiles e s yt L m fl = fl)
     = (monthlyMonthSkips e s yt L m
        \<or> \<not> createsFile e s
              (formatM e (monthlyFileFormat s) (newDate e yt (m + 1) (monthlyNotesDayOfMonth s)))
              L fl)"
  by (simp add: monthlyMonthFiles_def createNewFileFiles_settled)

lemma monthlyMonthFiles_mono:
  assumes "monthlyMonthFiles e s yt L m fl = fl" "set L \<subseteq> set L'" "set fl \<subseteq> set fl'"
  shows "monthlyMonthFiles e s yt L' m fl' = fl'"
  using assms monthlyMonthSkips_mono [of e s yt L m L'] createsFile_mono [OF _ assms(2,3)]
  unfolding monthlyMonthFiles_settled by blast

lemma monthlyMonthFiles_after:
  "monthlyMonthFiles e s yt L m (monthlyMonthFiles e s yt L m fl) = monthlyMonthFiles e s yt L m fl"
  using createsFile_after [of e s _ L fl]
  by (simp add: monthlyMonthFiles_def createNewFileFiles_settled)

lemma monthlyListing_mono:
  "set fl \<subseteq> set fl' \<Longrightarrow> set (monthlyListing e s fl) \<subseteq> set (monthlyListing e s fl')"
  by (auto simp: monthlyListing_def)

lemma monthlyFiles_extends: "\<exists>ys. monthlyFiles e s fl = fl @ ys"
  unfolding monthlyFiles_def
  by (rule fold_extends
             [where f = "monthlyMonthFiles e s (format e (yearFormat s) (now e))
                           (monthlyListing e s fl)",
              OF monthlyMonthFiles_extends])

lemma monthlyFiles_settled:
  assumes "set (monthlyFiles e s fl) \<subseteq> set fl'"
  shows "monthlyFiles e s fl' = fl'"
proof -
  let ?yt = "format e (yearFormat s) (now e)"
  obtain ys where "monthlyFiles e s fl = fl @ ys" using monthlyFiles_extends by blast
  with assms have sub: "set fl \<subseteq> set fl'" by auto
  have "\<forall>m \<in> set [0 ..< 12].
          monthlyMonthFiles e s ?yt (monthlyListing e s fl) m (monthlyFiles e s fl)
            = monthlyFiles e s fl"
    unfolding monthlyFiles_def
    by (rule fold_settles
               [where f = "monthlyMonthFiles e s ?yt (monthlyListing e s fl)",
                OF monthlyMonthFiles_extends monthlyMonthFiles_after])
       (rule monthlyMonthFiles_mono [OF _ subset_refl])
  then have "\<forall>m \<in> set [0 ..< 12]. monthlyMonthFiles e s ?yt (monthlyListing e s fl') m fl' = fl'"
    using monthlyMonthFiles_mono [OF _ monthlyListing_mono [OF sub] assms] by blast
  then show ?thesis
    unfolding monthlyFiles_def by (rule fold_settled)
qed

lemma templateGiven_mono:
  "templateGiven e s t fl \<Longrightarrow> set fl \<subseteq> set fl' \<Longrightarrow> templateGiven e s t fl'"
  by (auto simp: templateGiven_def list_ex_iff)







subsection \<open>What the daily loop reads of the settings\<close>






subsection \<open>A file that a round stores stays to the end of the run\<close>

lemma createNewFileFiles_stores:
  assumes "existingFile e (targetPath e s p) L = None" "createError e (targetPath e s p) = None"
  shows "targetPath e s p \<in> set (map path (createNewFileFiles e s p L fl))"
  using assms by (simp add: createNewFileFiles_def createsFile_def)

lemma fold_keeps:
  assumes "\<And>x fl. \<exists>ys. f x fl = fl @ ys" "x \<in> set (map path fl)"
  shows "x \<in> set (map path (fold f xs fl))"
proof -
  obtain ys where "fold f xs fl = fl @ ys"
    using fold_extends [where f = f, OF assms(1)] by blast
  with assms(2) show ?thesis by simp
qed

lemma dailyMonthFiles_skipped:
  assumes "newDate e (format e (yearFormat s) (now e)) (Suc m) 1 = Some d0"
      and "dailyMonthSkips e s m d0"
  shows "dailyMonthFiles e s m fl = fl"
  using assms by (simp add: dailyMonthFiles_def)

lemma dailyMonthFiles_days:
  assumes "newDate e (format e (yearFormat s) (now e)) (Suc m) 1 = Some d0"
      and "\<not> dailyMonthSkips e s m d0"
  shows "dailyMonthFiles e s m fl
     = fold (dailyDayFiles e s (format e (yearFormat s) (now e)) m
               (format e (monthFormat s) (setMonth m d0)) (dailyListing e s (setMonth m d0) fl))
         [1 ..< Suc (daysInMonth (year (setMonth m d0)) (month (setMonth m d0)))] fl"
  using assms by (simp add: dailyMonthFiles_def del: upt_Suc)

lemma dailyDayFiles_stores:
  assumes "\<not> dailyDaySkips e s yt m cm [] d" "newDate e yt (Suc m) (int d) = Some x"
      and "createError e (dailyArtifact e s x) = None"
  shows "dailyArtifact e s x \<in> set (map path (dailyDayFiles e s yt m cm [] d fl))"
  using assms createNewFileFiles_stores [of e s "format e (dailyFileFormat s) x" "[]" fl]
  by (simp add: dailyDayFiles_def dailyArtifact_def formatM_def)

lemma dailyListing_Nil [simp]: "dailyListing e s dm [] = []"
  by (simp add: dailyListing_def)

lemma months_split: "[0 ..< 12] = [0, 1, 2] @ [3 ..< 12]"
  by (simp add: upt_conv_Cons)

subsection \<open>The day of a note in another zone\<close>

lemma shiftZone_next_day:
  "d < daysInMonth y m \<Longrightarrow> shiftZone 1440 (dayOf y m d) = dayOf y m (Suc d)"
  by (simp add: shiftZone_def nextDay_def dayOf_def)

lemma shiftZone_next_month:
  "shiftZone 1440 (dayOf 2024 2 31) = dayOf 2024 3 1"
  by (simp add: shiftZone_def nextDay_def dayOf_def daysInMonth_def)

lemma april1_artifact:
  "dailyArtifact (scenarioEnv z n) (scenarioSettings a b) (dayOf 2024 3 1)
     = ''Journal/2024/04/01 - Monday.md''"
  by (simp add: scenario_dailyArtifact pad2_def digitChar_def weekday_def weekdayNames_def dayOf_sel)

lemma shifted_month_skipped:
  assumes "m < 2"
  shows "dailyMonthFiles (scenarioEnv 1440 march15) (scenarioSettings MONTH q) m fl = fl"
proof -
  let ?e = "scenarioEnv 1440 march15" and ?s = "scenarioSettings MONTH q"
  have nd: "newDate ?e (format ?e (yearFormat ?s) (now ?e)) (Suc m) 1 = Some (dayOf 2024 m 2)"
    using scenario_newDate_first [of m 1440 march15] assms
          shiftZone_next_day [of 1 2024 m]
    by (simp add: scenario_yearText daysInMonth_def numeral_2_eq_2 [symmetric])
  have "pad2 (Suc m) \<noteq> pad2 3"
    using pad2_eq [of "Suc m" 3] assms by simp
  then have "dailyMonthSkips ?e ?s m (dayOf 2024 m 2)"
    by (simp add: dailyMonthSkips_def scenarioEnv_sel scenarioSettings_sel scenario_formats
          setMonth_def dayOf_def march15_sel)
  with nd show ?thesis by (rule dailyMonthFiles_skipped)
qed

text \<open>
  Claim C1, on the code. \<open>newDate\<close> reads the text of a day as midnight in the zone of the
  system and shows that instant in the configured zone, so the day of a round is another
  day than the loop counts when the two zones differ. With the zone of the system 24
  hours behind the configured zone (UTC-11 and UTC+13), on 2024-03-15 at 09:30 in the
  configured zone, the daily policy \<open>MONTH\<close> and a vault that holds no file, the round
  of day 31 of March has the day 1 April: it passes the test that skips the days after
  today, for 1 is not after 15, and \<open>createDailyNote\<close> stores a note for 1 April, a day
  after now.
\<close>

theorem future_day_stored_across_zones:
  "''Journal/2024/04/01 - Monday.md''
     \<in> set (map path (files (snd (createDailyNote (scenarioEnv 1440 march15)
                                     (scenarioSettings MONTH q) emptyVault))))"
proof -
  let ?e = "scenarioEnv 1440 march15" and ?s = "scenarioSettings MONTH q"
  let ?day = "dailyDayFiles ?e ?s ''2024'' 2 ''03'' []"
  have nd: "newDate ?e (format ?e (yearFormat ?s) (now ?e)) (Suc 2) 1 = Some (dayOf 2024 2 2)"
    using scenario_newDate_first [of 2 1440 march15] shiftZone_next_day [of 1 2024 2]
    by (simp add: scenario_yearText daysInMonth_def numeral_2_eq_2 [symmetric])
  have sm: "setMonth 2 (dayOf 2024 2 2) = dayOf 2024 2 2"
    by (simp add: setMonth_def dayOf_def daysInMonth_def)
  have ns: "\<not> dailyMonthSkips ?e ?s 2 (dayOf 2024 2 2)"
    by (simp add: dailyMonthSkips_def sm scenarioEnv_sel scenarioSettings_sel scenario_formats
          dayOf_sel march15_sel)
  have m2: "dailyMonthFiles ?e ?s 2 [] = fold ?day [1 ..< 32] []"
    using dailyMonthFiles_days [OF nd ns, of "[]"]
    by (simp add: sm scenarioEnv_sel scenarioSettings_sel scenario_formats march15_sel
          pad4_2024 dayOf_sel pad2_3 daysInMonth_def del: upt_Suc)
  have d31: "newDate ?e ''2024'' (Suc 2) (int 31) = Some (dayOf 2024 3 1)"
    using scenario_newDate_shifted [of 2 31 1440 march15] shiftZone_next_month
    by (simp add: daysInMonth_def)
  have open31: "\<not> dailyDaySkips ?e ?s ''2024'' 2 ''03'' [] 31"
    using d31
    by (simp add: dailyDaySkips_def dateAfter_def dateBefore_def dayOf_sel scenarioEnv_sel
          scenarioSettings_sel march15_sel)
  have "dailyArtifact ?e ?s (dayOf 2024 3 1) \<in> set (map path (?day 31 fl))" for fl
    by (rule dailyDayFiles_stores [OF open31 d31]) (simp add: scenarioEnv_sel)
  then have last: "''Journal/2024/04/01 - Monday.md'' \<in> set (map path (?day 31 fl))" for fl
    unfolding april1_artifact .
  have "[1 ..< 32] = [1 ..< 31] @ [31::nat]"
    by (simp add: upt_conv_Cons)
  then have "fold ?day [1 ..< 32] [] = ?day 31 (fold ?day [1 ..< 31] [])"
    by (simp del: upt_Suc)
  with last m2
  have in2: "''Journal/2024/04/01 - Monday.md'' \<in> set (map path (dailyMonthFiles ?e ?s 2 []))"
    by simp
  have eq: "dailyFiles ?e ?s [] = fold (dailyMonthFiles ?e ?s) [3 ..< 12] (dailyMonthFiles ?e ?s 2 [])"
    unfolding dailyFiles_def months_split
    by (simp add: shifted_month_skipped del: upt_Suc)
  have "''Journal/2024/04/01 - Monday.md'' \<in> set (map path (dailyFiles ?e ?s []))"
    unfolding eq
    by (rule fold_keeps [where f = "dailyMonthFiles ?e ?s", OF dailyMonthFiles_extends in2])
  then show ?thesis
    by (simp add: files_createDailyNote scenario_templateGiven emptyVault_def)
qed

lemma shiftZone_evening_before:
  "shiftZone (- 210) (dayOf 2024 0 1) = \<lparr>year = 2023, month = 11, date = 31, hour = 20, minute = 30\<rparr>"
  "shiftZone (- 210) (dayOf 2024 1 1) = \<lparr>year = 2024, month = 0, date = 31, hour = 20, minute = 30\<rparr>"
  "shiftZone (- 210) (dayOf 2024 2 1) = \<lparr>year = 2024, month = 1, date = 29, hour = 20, minute = 30\<rparr>"
  by (simp_all add: shiftZone_def prevDay_def dayOf_def daysInMonth_def leapYear_def)

lemma february29_artifact:
  "dailyArtifact (scenarioEnv z n) (scenarioSettings a b)
     \<lparr>year = 2024, month = 1, date = 29, hour = 20, minute = 30\<rparr>
     = ''Journal/2024/02/29 - Thursday.md''"
  by (simp add: scenario_dailyArtifact_moment pad2_def digitChar_def weekday_def weekdayNames_def)

lemma behind_month_skipped:
  assumes "m < 2"
  shows "dailyMonthFiles (scenarioEnv (- 210) march29) (scenarioSettings NONE q) m fl = fl"
proof -
  let ?e = "scenarioEnv (- 210) march29" and ?s = "scenarioSettings NONE q"
  from assms consider "m = 0" | "m = 1" by linarith
  then show ?thesis
  proof cases
    case 1
    have nd: "newDate ?e (format ?e (yearFormat ?s) (now ?e)) (Suc 0) 1
                = Some \<lparr>year = 2023, month = 11, date = 31, hour = 20, minute = 30\<rparr>"
      using scenario_newDate_first [of 0 "- 210" march29] shiftZone_evening_before
      by (simp add: scenario_yearText)
    have "dailyMonthSkips ?e ?s 0 \<lparr>year = 2023, month = 11, date = 31, hour = 20, minute = 30\<rparr>"
      by (simp add: dailyMonthSkips_def scenarioEnv_sel scenarioSettings_sel scenario_formats
            setMonth_def march29_sel pad2_def digitChar_def)
    with nd show ?thesis unfolding 1 by (rule dailyMonthFiles_skipped)
  next
    case 2
    have nd: "newDate ?e (format ?e (yearFormat ?s) (now ?e)) (Suc 1) 1
                = Some \<lparr>year = 2024, month = 0, date = 31, hour = 20, minute = 30\<rparr>"
      using scenario_newDate_first [of 1 "- 210" march29] shiftZone_evening_before
      by (simp add: scenario_yearText)
    have "dailyMonthSkips ?e ?s 1 \<lparr>year = 2024, month = 0, date = 31, hour = 20, minute = 30\<rparr>"
      by (simp add: dailyMonthSkips_def scenarioEnv_sel scenarioSettings_sel scenario_formats
            setMonth_def march29_sel pad2_def digitChar_def)
    with nd show ?thesis unfolding 2 by (rule dailyMonthFiles_skipped)
  qed
qed

text \<open>
  Claim C3, on the code. The defect is the one of claim C1: the day of a round is the day
  that the configured zone shows for midnight in the zone of the system. With the zone of
  the system three and a half hours ahead of the configured zone (UTC+9 and UTC+5:30), on
  2024-03-29 at 09:30 in the configured zone, the daily policy \<open>NONE\<close> and a vault that
  holds no file, the round of day 1 of March has the day 29 February: it passes the test
  that skips the days before today, for 29 is not before 29, and \<open>createDailyNote\<close>
  stores a note for 29 February, a day before today.
\<close>

theorem past_day_stored_under_none:
  "''Journal/2024/02/29 - Thursday.md''
     \<in> set (map path (files (snd (createDailyNote (scenarioEnv (- 210) march29)
                                     (scenarioSettings NONE q) emptyVault))))"
proof -
  let ?e = "scenarioEnv (- 210) march29" and ?s = "scenarioSettings NONE q"
  let ?d0 = "\<lparr>year = 2024, month = 1, date = 29, hour = 20, minute = 30\<rparr>"
  let ?dm = "\<lparr>year = 2024, month = 2, date = 29, hour = 20, minute = 30\<rparr>"
  let ?day = "dailyDayFiles ?e ?s ''2024'' 2 ''03'' []"
  have nd: "newDate ?e (format ?e (yearFormat ?s) (now ?e)) (Suc 2) 1 = Some ?d0"
    using scenario_newDate_first [of 2 "- 210" march29] shiftZone_evening_before
    by (simp add: scenario_yearText)
  have sm: "setMonth 2 ?d0 = ?dm"
    by (simp add: setMonth_def daysInMonth_def)
  have ns: "\<not> dailyMonthSkips ?e ?s 2 ?d0"
    using sm
    by (simp add: dailyMonthSkips_def scenarioEnv_sel scenarioSettings_sel scenario_formats
          march29_sel)
  have m2: "dailyMonthFiles ?e ?s 2 [] = fold ?day [1 ..< 32] []"
    using dailyMonthFiles_days [OF nd ns, of "[]"] sm
    by (simp add: scenarioEnv_sel scenarioSettings_sel scenario_formats march29_sel
          pad4_2024 pad2_3 daysInMonth_def del: upt_Suc)
  have d1: "newDate ?e ''2024'' (Suc 2) (int 1) = Some ?d0"
    using scenario_newDate_first [of 2 "- 210" march29] shiftZone_evening_before
    by simp
  have open1: "\<not> dailyDaySkips ?e ?s ''2024'' 2 ''03'' [] 1"
    using d1
    by (simp add: dailyDaySkips_def dateAfter_def dateBefore_def scenarioEnv_sel
          scenarioSettings_sel march29_sel)
  have "dailyArtifact ?e ?s ?d0 \<in> set (map path (?day 1 []))"
    by (rule dailyDayFiles_stores [OF open1 d1]) (simp add: scenarioEnv_sel)
  then have first: "''Journal/2024/02/29 - Thursday.md'' \<in> set (map path (?day 1 []))"
    unfolding february29_artifact .
  have "[1 ..< 32] = 1 # [2 ..< 32::nat]"
    by (simp add: upt_conv_Cons)
  then have "fold ?day [1 ..< 32] [] = fold ?day [2 ..< 32] (?day 1 [])"
    by (simp del: upt_Suc)
  then have in2: "''Journal/2024/02/29 - Thursday.md'' \<in> set (map path (dailyMonthFiles ?e ?s 2 []))"
    unfolding m2
    using fold_keeps [where f = ?day, OF dailyDayFiles_extends first, of "[2 ..< 32]"]
    by (simp only:)
  have eq: "dailyFiles ?e ?s [] = fold (dailyMonthFiles ?e ?s) [3 ..< 12] (dailyMonthFiles ?e ?s 2 [])"
    unfolding dailyFiles_def months_split
    by (simp add: behind_month_skipped del: upt_Suc)
  have "''Journal/2024/02/29 - Thursday.md'' \<in> set (map path (dailyFiles ?e ?s []))"
    unfolding eq
    by (rule fold_keeps [where f = "dailyMonthFiles ?e ?s", OF dailyMonthFiles_extends in2])
  then show ?thesis
    by (simp add: files_createDailyNote scenario_templateGiven emptyVault_def)
qed

subsection \<open>The text of a new note\<close>

lemma expandReplacement_plain:
  "CHR ''$'' \<notin> set rep \<Longrightarrow> expandReplacement rep matched pre post = rep"
  by (induction rep matched pre post rule: expandReplacement.induct) auto

lemma indexOfFrom_first:
  assumes "indexOfFrom i t tok = Some k"
  shows "i \<le> k \<and> k - i \<le> length t \<and> startsWith (drop (k - i) t) tok
         \<and> (\<forall>j < k - i. \<not> startsWith (drop j t) tok)"
  using assms
proof (induction t arbitrary: i)
  case Nil
  then show ?case
    by (auto simp: startsWith_def split: if_splits)
next
  case (Cons c cs)
  show ?case
  proof (cases "startsWith (c # cs) tok")
    case True
    with Cons.prems show ?thesis by simp
  next
    case False
    with Cons.prems have "indexOfFrom (Suc i) cs tok = Some k" by simp
    from Cons.IH [OF this]
    have ih: "Suc i \<le> k" "k - Suc i \<le> length cs" "startsWith (drop (k - Suc i) cs) tok"
      "\<forall>j < k - Suc i. \<not> startsWith (drop j cs) tok"
      by blast+
    from ih(1) have ki: "k - i = Suc (k - Suc i)" by simp
    have "\<not> startsWith (drop j (c # cs)) tok" if "j < k - i" for j
    proof (cases j)
      case 0
      with False show ?thesis by simp
    next
      case (Suc j')
      with that ki ih(4) show ?thesis by simp
    qed
    with ih ki show ?thesis by simp
  qed
qed

lemma startsWith_split:
  assumes "startsWith (drop i t) tok" "i \<le> length t"
  shows "t = take i t @ tok @ drop (i + length tok) t"
proof -
  have a: "take (length tok) (drop i t) = tok"
    using assms(1) by (simp add: startsWith_def)
  have b: "drop (length tok) (drop i t) = drop (i + length tok) t"
    by (simp add: add.commute)
  have "drop i t = take (length tok) (drop i t) @ drop (length tok) (drop i t)"
    by (simp only: append_take_drop_id)
  then have "drop i t = tok @ drop (i + length tok) t"
    unfolding a b .
  then show ?thesis
    using append_take_drop_id [of i t] by metis
qed

lemma replace_first:
  assumes "stringIncludes t tok" "CHR ''$'' \<notin> set rep"
  shows "\<exists>pre post. t = pre @ tok @ post
           \<and> (\<forall>j < length pre. \<not> startsWith (drop j t) tok)
           \<and> replace t tok rep = pre @ rep @ post"
proof -
  from assms(1) obtain k where k: "indexOfFrom 0 t tok = Some k"
    by (auto simp: stringIncludes_def)
  from indexOfFrom_first [OF k]
  have f: "k \<le> length t" "startsWith (drop k t) tok" "\<forall>j < k. \<not> startsWith (drop j t) tok"
    by simp_all
  have sp: "t = take k t @ tok @ drop (k + length tok) t"
    by (rule startsWith_split [OF f(2) f(1)])
  have len: "length (take k t) = k" using f(1) by simp
  have "replace t tok rep = take k t @ rep @ drop (k + length tok) t"
    by (simp add: replace_def k expandReplacement_plain [OF assms(2)])
  with sp f(3) len show ?thesis by metis
qed

lemma contents_notify [simp]: "contents (notify n st) = contents st"
  by (simp add: notify_def)

lemma contents_catchNotify [simp]: "contents (catchNotify s r) = contents (snd r)"
  by (simp add: catchNotify_def errorNotification_def split: sum.splits)

lemma contents_createNewFile:
  "contents (snd (createNewFile e s cd p tmpl L st))
     = (if createsFile e s p L (files st)
        then (contents st)(targetPath e s p \<mapsto> renderTemplate e s cd (targetPath e s p) tmpl)
        else contents st)"
  by (auto simp: createNewFile_def createsFile_def Let_def vaultCreate_def
           split: option.splits sum.splits)

lemma returns_createNewFile:
  "createsFile e s p L (files st)
     \<Longrightarrow> fst (createNewFile e s cd p tmpl L st) = Inr (targetPath e s p)"
  by (auto simp: createNewFile_def createsFile_def Let_def vaultCreate_def
           split: option.splits sum.splits)

lemma escaped_dollar: "momentFormat ''[$&]'' d = ''$&''"
  by (simp add: momentFormat.simps tokenAt_def startsWith_def)

text \<open>
  Claim C8, as the code has it. The date token is replaced by \<open>String.replace\<close>, which
  reads a dollar sign in the replacement text as a pattern. With the date pattern
  \<open>[$&]\<close>, which prints the text \<open>$&\<close>, the replacement is the matched text itself: the
  token stays in the note and the printed date does not appear. And the replacement is
  made once: of two tokens the second stays.
\<close>

theorem date_token_counterexample:
  "formatM (scenarioEnv 0 march15)
      (templateDateFormat ((scenarioSettings NONE NONE)\<lparr>templateDateFormat := ''[$&]''\<rparr>))
      (Some march15) = ''$&''
   \<and> renderTemplate (scenarioEnv 0 march15)
         ((scenarioSettings NONE NONE)\<lparr>templateDateFormat := ''[$&]''\<rparr>) (Some march15)
         ''Journal/2024/03/15 - Friday.md'' ''Date: {{auto-journal-date}}''
       = ''Date: {{auto-journal-date}}''
   \<and> renderTemplate (scenarioEnv 0 march15) (scenarioSettings NONE NONE) (Some march15)
         ''Journal/2024/03/15 - Friday.md'' ''{{auto-journal-date}} {{auto-journal-date}}''
       = ''2024-03-15 {{auto-journal-date}}''"
  by (simp add: renderTemplate_def formatM_def scenarioEnv_sel scenarioSettings_sel
        escaped_dollar scenario_formats march15_sel pad4_2024 pad2_def digitChar_def
        stringIncludes_def startsWith_def replace_def)

text \<open>
  Claim C8, amended. \<open>createNewFile\<close> stores the text that the variable engine returns
  for the template in which the date token has been replaced already: the replacement of
  the date token comes first. With date templating on and a template that contains the
  token, the first occurrence of the token is replaced by the date that \<open>createNewFile\<close>
  received, printed with the date pattern, when the printed date holds no dollar sign;
  the text before and the text after that occurrence stay. With date templating off or
  a template without the token the engine receives the template as it is.
\<close>

theorem date_token_replaced_before_variables:
  "(createsFile e s newFilePath filesInFolder (files st)
      \<longrightarrow> fst (createNewFile e s createdDate newFilePath templateContents filesInFolder st)
            = Inr (targetPath e s newFilePath)
          \<and> contents
               (snd (createNewFile e s createdDate newFilePath templateContents filesInFolder st))
               (targetPath e s newFilePath)
            = Some (renderTemplate e s createdDate (targetPath e s newFilePath) templateContents))
   \<and> renderTemplate e s createdDate notePath templateContents
       = replaceNewFileVars e
           (if shouldTemplateDate s \<and> stringIncludes templateContents (templateDateToken s)
            then replace templateContents (templateDateToken s)
                   (formatM e (templateDateFormat s) createdDate)
            else templateContents)
           (fileNameNoExtension e notePath)
   \<and> (shouldTemplateDate s \<and> stringIncludes templateContents (templateDateToken s)
        \<and> CHR ''$'' \<notin> set (formatM e (templateDateFormat s) createdDate)
      \<longrightarrow> (\<exists>pre post.
             templateContents = pre @ templateDateToken s @ post
             \<and> (\<forall>j < length pre. \<not> startsWith (drop j templateContents) (templateDateToken s))
             \<and> renderTemplate e s createdDate notePath templateContents
                 = replaceNewFileVars e
                     (pre @ formatM e (templateDateFormat s) createdDate @ post)
                     (fileNameNoExtension e notePath)))"
proof (intro conjI impI)
  assume "createsFile e s newFilePath filesInFolder (files st)"
  then show "fst (createNewFile e s createdDate newFilePath templateContents filesInFolder st)
            = Inr (targetPath e s newFilePath)"
    by (rule returns_createNewFile)
next
  assume "createsFile e s newFilePath filesInFolder (files st)"
  then show "contents
               (snd (createNewFile e s createdDate newFilePath templateContents filesInFolder st))
               (targetPath e s newFilePath)
            = Some (renderTemplate e s createdDate (targetPath e s newFilePath) templateContents)"
    by (simp add: contents_createNewFile)
next
  show "renderTemplate e s createdDate notePath templateContents
       = replaceNewFileVars e
           (if shouldTemplateDate s \<and> stringIncludes templateContents (templateDateToken s)
            then replace templateContents (templateDateToken s)
                   (formatM e (templateDateFormat s) createdDate)
            else templateContents)
           (fileNameNoExtension e notePath)"
    by (simp add: renderTemplate_def)
next
  assume a: "shouldTemplateDate s \<and> stringIncludes templateContents (templateDateToken s)
        \<and> CHR ''$'' \<notin> set (formatM e (templateDateFormat s) createdDate)"
  then obtain pre post where
    p1: "templateContents = pre @ templateDateToken s @ post" and
    p2: "\<forall>j < length pre. \<not> startsWith (drop j templateContents) (templateDateToken s)" and
    p3: "replace templateContents (templateDateToken s)
           (formatM e (templateDateFormat s) createdDate)
         = pre @ formatM e (templateDateFormat s) createdDate @ post"
    using replace_first [of templateContents "templateDateToken s"
            "formatM e (templateDateFormat s) createdDate"]
    by blast
  have r: "renderTemplate e s createdDate notePath templateContents
             = replaceNewFileVars e
                 (pre @ formatM e (templateDateFormat s) createdDate @ post)
                 (fileNameNoExtension e notePath)"
    using a by (simp add: renderTemplate_def p3)
  from p1 p2 r show "\<exists>pre post.
             templateContents = pre @ templateDateToken s @ post
             \<and> (\<forall>j < length pre. \<not> startsWith (drop j templateContents) (templateDateToken s))
             \<and> renderTemplate e s createdDate notePath templateContents
                 = replaceNewFileVars e
                     (pre @ formatM e (templateDateFormat s) createdDate @ post)
                     (fileNameNoExtension e notePath)"
    by blast
qed

theorem date_token_replaced_before_variables_witness:
  "shouldTemplateDate (scenarioSettings NONE NONE)
   \<and> stringIncludes ''Date: {{auto-journal-date}}.'' (templateDateToken (scenarioSettings NONE NONE))
   \<and> CHR ''$'' \<notin> set (formatM (scenarioEnv 0 march15)
                          (templateDateFormat (scenarioSettings NONE NONE)) (Some march15))
   \<and> (\<exists>pre post.
         ''Date: {{auto-journal-date}}.'' = pre @ templateDateToken (scenarioSettings NONE NONE) @ post
         \<and> renderTemplate (scenarioEnv 0 march15) (scenarioSettings NONE NONE) (Some march15)
             ''Journal/2024/03/15 - Friday.md'' ''Date: {{auto-journal-date}}.''
           = replaceNewFileVars (scenarioEnv 0 march15)
               (pre @ formatM (scenarioEnv 0 march15)
                        (templateDateFormat (scenarioSettings NONE NONE)) (Some march15) @ post)
               (fileNameNoExtension (scenarioEnv 0 march15) ''Journal/2024/03/15 - Friday.md''))"
proof -
  have a: "shouldTemplateDate (scenarioSettings NONE NONE)
      \<and> stringIncludes ''Date: {{auto-journal-date}}.''
           (templateDateToken (scenarioSettings NONE NONE))
      \<and> CHR ''$'' \<notin> set (formatM (scenarioEnv 0 march15)
                             (templateDateFormat (scenarioSettings NONE NONE)) (Some march15))"
    by (simp add: scenarioSettings_sel scenarioEnv_sel formatM_def scenario_formats march15_sel
          pad4_2024 pad2_def digitChar_def stringIncludes_def startsWith_def)
  from date_token_replaced_before_variables
         [where e = "scenarioEnv 0 march15" and s = "scenarioSettings NONE NONE"
            and createdDate = "Some march15" and notePath = "''Journal/2024/03/15 - Friday.md''"
            and templateContents = "''Date: {{auto-journal-date}}.''",
          THEN conjunct2, THEN conjunct2] a
  show ?thesis by blast
qed

end
